theory Spec2Isabelle
  imports Complex_Main "HOL-Library.Log_Nat"
begin

section \<open>Errors\<close>

text \<open>
  Every exception the modelled code can raise is a value. \<open>NotFittedError\<close> is the error
  scikit-learn raises when an estimator is used before \<open>fit\<close>; \<open>MlflowException\<close> is the
  error of the tracking client, \<open>AllTrialsFailed\<close> the error of the search driver when no
  trial succeeded.
\<close>

datatype error =
    AttributeError
  | ValueError
  | ZeroDivisionError
  | IndexError
  | NotFittedError
  | MlflowException
  | AllTrialsFailed

section \<open>Python floats\<close>

text \<open>
  The ratios of the split are Python floats, that is IEEE 754 binary64 numbers, and the
  code computes with them: every operation returns the exact result rounded to the nearest
  double, ties to the even significand. A finite double is embedded as the rational it
  denotes. \<open>ilog2\<close> is the binary exponent of a positive rational, \<open>fl\<close> the rounding: 53
  significant bits, and the fixed spacing \<open>2 powi (- 1074)\<close> in the subnormal range.
  Overflow to an infinity is not modelled: the doubles of the theorems are finite, and a
  difference beyond the range of the format compares with 0 and 1 as the infinity would.
\<close>

definition round_even :: "rat \<Rightarrow> int" where
  "round_even y =
     (let f = \<lfloor>y\<rfloor>; r = y - of_int f
      in if r < 1 / 2 then f else if 1 / 2 < r then f + 1 else if even f then f else f + 1)"

definition ilog2 :: "rat \<Rightarrow> int" where
  "ilog2 x =
     (case quotient_of x of (p, q) \<Rightarrow>
        let d = bitlen p - bitlen q in if 2 powi d \<le> x then d else d - 1)"

definition fl :: "rat \<Rightarrow> rat" where
  "fl x =
     (if x = 0 then 0
      else let u = 2 powi (max (ilog2 \<bar>x\<bar> - 52) (- 1074))
           in sgn x * of_int (round_even (\<bar>x\<bar> / u)) * u)"

text \<open>The doubles: the rationals that rounding leaves unchanged, within the range of the format.\<close>

definition is_double :: "rat \<Rightarrow> bool" where
  "is_double d \<longleftrightarrow> fl d = d \<and> \<bar>d\<bar> < 2 ^ 1024"

text \<open>The float operations, and the conversion of a row count to a float.\<close>

definition fadd :: "rat \<Rightarrow> rat \<Rightarrow> rat" where
  "fadd x y = fl (x + y)"

definition fsub :: "rat \<Rightarrow> rat \<Rightarrow> rat" where
  "fsub x y = fl (x - y)"

definition fmul :: "rat \<Rightarrow> rat \<Rightarrow> rat" where
  "fmul x y = fl (x * y)"

definition fdiv :: "rat \<Rightarrow> rat \<Rightarrow> rat" where
  "fdiv x y = fl (x / y)"

definition float_of_nat :: "nat \<Rightarrow> rat" where
  "float_of_nat n = fl (of_nat n)"

section \<open>WineDataProcessor\<close>

text \<open>
  A data frame is the list of its rows in positional order. A row of the wine data has the
  physicochemical features (kept abstract), the indicator \<open>is_red\<close> and the integer
  \<open>quality\<close>.
\<close>

record 'f row =
  feats :: 'f
  is_red :: int
  quality :: int

record 'f WineDataProcessor =
  data :: "'f row list option"

definition WineDataProcessor_init :: "'f WineDataProcessor" where
  "WineDataProcessor_init = \<lparr>data = None\<rparr>"

text \<open>\<^verbatim>\<open>data['quality'] = (data.quality >= 7).astype(int)\<close>\<close>

definition binarize_quality :: "'f row list \<Rightarrow> 'f row list" where
  "binarize_quality d = map (\<lambda>r. r\<lparr>quality := (if quality r \<ge> 7 then 1 else 0)\<rparr>) d"

text \<open>
  \<open>load_data\<close>: the two CSV files are inputs (rows of features and raw quality); red rows
  come first in the concatenation.
\<close>

definition load_data ::
  "'f WineDataProcessor \<Rightarrow> ('f \<times> int) list \<Rightarrow> ('f \<times> int) list
    \<Rightarrow> 'f WineDataProcessor \<times> 'f row list" where
  "load_data self white_wine red_wine =
     (let red = map (\<lambda>(f, q). \<lparr>feats = f, is_red = 1, quality = q\<rparr>) red_wine;
          white = map (\<lambda>(f, q). \<lparr>feats = f, is_red = 0, quality = q\<rparr>) white_wine;
          d = binarize_quality (red @ white)
      in (self\<lparr>data := Some d\<rparr>, d))"

subsection \<open>The library call \<open>train_test_split\<close>\<close>

text \<open>
  The random number generator of numpy is a parameter of the model: \<open>seed_rng\<close> builds the
  state of a fresh generator from an integer seed, \<open>permutation\<close> draws a permutation of
  \<open>0..<n\<close> and returns the advanced state.
\<close>

record 'g numpy =
  seed_rng :: "int \<Rightarrow> 'g"
  permutation :: "'g \<Rightarrow> nat \<Rightarrow> nat list \<times> 'g"

text \<open>
  The argument \<open>random_state\<close>: \<open>None\<close> uses (and advances) the process-wide generator,
  an integer seeds a fresh generator for this call only.
\<close>

datatype random_state = RSNone | RSInt int

definition shuffle_indices :: "'g numpy \<Rightarrow> random_state \<Rightarrow> nat \<Rightarrow> 'g \<Rightarrow> nat list \<times> 'g" where
  "shuffle_indices np rs n g =
     (case rs of
        RSNone \<Rightarrow> permutation np g n
      | RSInt s \<Rightarrow> (fst (permutation np (seed_rng np s) n), g))"

text \<open>
  \<open>_validate_shuffle_split\<close> for float (or absent) sizes, as \<open>train_test_split\<close> calls it:
  the range checks, \<open>ceil\<close> of the float product for the test part, \<open>floor\<close> of the float
  product for the train part (the row count is converted to a float first), the complement
  for an absent size, and the refusal of an empty train part.
\<close>

definition validate_shuffle_split ::
  "nat \<Rightarrow> rat option \<Rightarrow> rat option \<Rightarrow> error + (int \<times> int)" where
  "validate_shuffle_split n_samples test_size0 train_size =
     (let test_size = (if test_size0 = None \<and> train_size = None then Some (1 / 4) else test_size0)
      in if (case test_size of Some t \<Rightarrow> t \<le> 0 \<or> t \<ge> 1 | None \<Rightarrow> False) then Inl ValueError
         else if (case train_size of Some t \<Rightarrow> t \<le> 0 \<or> t \<ge> 1 | None \<Rightarrow> False) then Inl ValueError
         else if (case (train_size, test_size) of (Some a, Some b) \<Rightarrow> fadd a b > 1 | _ \<Rightarrow> False)
           then Inl ValueError
         else
           let n = int n_samples;
               n_test0 = (case test_size of Some t \<Rightarrow> \<lceil>fmul t (float_of_nat n_samples)\<rceil> | None \<Rightarrow> 0);
               n_train0 = (case train_size of Some t \<Rightarrow> \<lfloor>fmul t (float_of_nat n_samples)\<rfloor> | None \<Rightarrow> 0);
               n_train = (if train_size = None then n - n_test0 else n_train0);
               n_test = (if train_size \<noteq> None \<and> test_size = None then n - n_train else n_test0)
           in if n_train + n_test > n then Inl ValueError
              else if n_train = 0 then Inl ValueError
              else Inr (n_train, n_test))"

text \<open>
  The same function for the integer sizes that \<open>train_test_split\<close> hands on to
  \<open>ShuffleSplit\<close>, which validates them again: each part must have at least one row and
  fewer rows than the input.
\<close>

definition validate_shuffle_split_int :: "nat \<Rightarrow> int \<Rightarrow> int \<Rightarrow> error + (nat \<times> nat)" where
  "validate_shuffle_split_int n_samples test_size train_size =
     (let n = int n_samples
      in if test_size \<ge> n \<or> test_size \<le> 0 then Inl ValueError
         else if train_size \<ge> n \<or> train_size \<le> 0 then Inl ValueError
         else if train_size + test_size > n then Inl ValueError
         else if train_size = 0 then Inl ValueError
         else Inr (nat train_size, nat test_size))"

text \<open>\<open>_safe_indexing\<close>: positional selection; an index out of range raises.\<close>

definition safe_indexing :: "'a list \<Rightarrow> nat list \<Rightarrow> error + 'a list" where
  "safe_indexing xs idx =
     (if list_all (\<lambda>i. i < length xs) idx then Inr (map ((!) xs) idx) else Inl IndexError)"

text \<open>
  \<open>train_test_split(X, y, test_size, train_size, random_state)\<close> with shuffling: the test
  part is the first \<open>n_test\<close> entries of the permutation, the train part the next
  \<open>n_train\<close>. The last argument and the second result are the process-wide generator.
\<close>

definition train_test_split ::
  "'g numpy \<Rightarrow> 'a list \<Rightarrow> 'b list \<Rightarrow> rat option \<Rightarrow> rat option \<Rightarrow> random_state \<Rightarrow> 'g
    \<Rightarrow> (error + ('a list \<times> 'a list \<times> 'b list \<times> 'b list)) \<times> 'g" where
  "train_test_split np X y test_size train_size rs g =
     (if length X \<noteq> length y then (Inl ValueError, g)
      else case validate_shuffle_split (length X) test_size train_size of
        Inl e \<Rightarrow> (Inl e, g)
      | Inr (n_train0, n_test0) \<Rightarrow>
          (case validate_shuffle_split_int (length X) n_test0 n_train0 of
             Inl e \<Rightarrow> (Inl e, g)
           | Inr (n_train, n_test) \<Rightarrow>
               (case shuffle_indices np rs (length X) g of
                  (perm, g') \<Rightarrow>
                    let ind_test = take n_test perm;
                        ind_train = take n_train (drop n_test perm)
                    in (case (safe_indexing X ind_train, safe_indexing X ind_test,
                              safe_indexing y ind_train, safe_indexing y ind_test) of
                          (Inr a, Inr b, Inr c, Inr d) \<Rightarrow> (Inr (a, b, c, d), g')
                        | _ \<Rightarrow> (Inl IndexError, g')))))"

subsection \<open>\<open>split_data\<close>\<close>

text \<open>
  The two sizes are computed as the code computes them, in float arithmetic:
  \<^verbatim>\<open>1-test_size-val_size\<close> and \<^verbatim>\<open>val_size/(test_size+val_size)\<close>.
\<close>

type_synonym 'f features = "'f \<times> int"

definition split_data ::
  "'g numpy \<Rightarrow> 'f WineDataProcessor \<Rightarrow> rat \<Rightarrow> rat \<Rightarrow> 'g
    \<Rightarrow> (error + ('f features list \<times> 'f features list \<times> 'f features list
                 \<times> int list \<times> int list \<times> int list)) \<times> 'g" where
  "split_data np self test_size val_size g =
     (case data self of
        None \<Rightarrow> (Inl AttributeError, g)
      | Some d \<Rightarrow>
          let X = map (\<lambda>r. (feats r, is_red r)) d;
              y = map quality d
          in (case train_test_split np X y None (Some (fsub (fsub 1 test_size) val_size))
                     (RSInt 123) g of
                (Inl e, g1) \<Rightarrow> (Inl e, g1)
              | (Inr (X_train, X_rem, y_train, y_rem), g1) \<Rightarrow>
                  if fadd test_size val_size = 0 then (Inl ZeroDivisionError, g1)
                  else (case train_test_split np X_rem y_rem
                               (Some (fdiv val_size (fadd test_size val_size))) None
                               (RSInt 123) g1 of
                          (Inl e, g2) \<Rightarrow> (Inl e, g2)
                        | (Inr (X_val, X_test, y_val, y_test), g2) \<Rightarrow>
                            (Inr (X_train, X_val, X_test, y_train, y_val, y_test), g2))))"

subsection \<open>What the model assumes of the generator, and a concrete instance\<close>

text \<open>
  \<open>permutation\<close> returns a permutation of \<open>0..<n\<close>, whatever the state of the generator.
\<close>

definition numpy_ok :: "'g numpy \<Rightarrow> bool" where
  "numpy_ok np \<longleftrightarrow>
     (\<forall>g n. distinct (fst (permutation np g n)) \<and> set (fst (permutation np g n)) = {0..<n})"

text \<open>
  A concrete generator for the examples: its state counts the draws and every draw is the
  reversal of \<open>0..<n\<close>.
\<close>

definition rev_numpy :: "nat numpy" where
  "rev_numpy = \<lparr>seed_rng = (\<lambda>s. nat \<bar>s\<bar>), permutation = (\<lambda>g n. (rev [0..<n], Suc g))\<rparr>"

text \<open>A processor loaded with six white and four red wines (features are row labels).\<close>

definition example_processor :: "nat WineDataProcessor" where
  "example_processor =
     fst (load_data WineDataProcessor_init
            [(0, 6), (1, 7), (2, 5), (3, 8), (4, 6), (5, 4)]
            [(6, 5), (7, 7), (8, 3), (9, 6)])"

section \<open>The classifier and its wrappers\<close>

text \<open>
  What \<open>fit\<close> leaves in a scikit-learn classifier: the classes seen in the training labels,
  in increasing order, and for every row the probability of each class. Probabilities are
  embedded as rationals.
\<close>

record 'x forest =
  classes :: "int list"
  proba :: "'x \<Rightarrow> int \<Rightarrow> rat"

record 'x RandomForestClassifier =
  n_estimators :: nat
  random_seed :: int
  fitted :: "'x forest option"

text \<open>
  The library functions the code calls and does not define are parameters: training a
  forest (from the number of trees, the seed, the rows and the labels) and the area under
  the ROC curve (from the true labels and the scores). Either may raise.
\<close>

record 'x sklearn =
  forest_fit :: "nat \<Rightarrow> int \<Rightarrow> 'x list \<Rightarrow> int list \<Rightarrow> error + 'x forest"
  roc_auc_score :: "int list \<Rightarrow> rat list \<Rightarrow> error + rat"

text \<open>
  \<open>predict_proba\<close> returns a matrix with one row per input row and one column per class;
  the matrix is kept with its number of columns, which an empty batch still has. An
  estimator that was never fitted raises \<open>NotFittedError\<close>.
\<close>

type_synonym matrix = "nat \<times> rat list list"

definition predict_proba :: "'x RandomForestClassifier \<Rightarrow> 'x list \<Rightarrow> error + matrix" where
  "predict_proba est X =
     (case fitted est of
        None \<Rightarrow> Inl NotFittedError
      | Some f \<Rightarrow> Inr (length (classes f), map (\<lambda>x. map (proba f x) (classes f)) X))"

text \<open>The slice \<^verbatim>\<open>[:, j]\<close>: column \<open>j\<close>, or \<open>IndexError\<close> when the matrix has no such column.\<close>

definition column :: "nat \<Rightarrow> matrix \<Rightarrow> error + rat list" where
  "column j a = (case a of (ncols, rows) \<Rightarrow>
      if j < ncols then Inr (map (\<lambda>r. r ! j) rows) else Inl IndexError)"

record 'x SklearnModelWrapper =
  wrapped :: "'x RandomForestClassifier"

definition SklearnModelWrapper_init :: "'x RandomForestClassifier \<Rightarrow> 'x SklearnModelWrapper" where
  "SklearnModelWrapper_init m = \<lparr>wrapped = m\<rparr>"

text \<open>\<^verbatim>\<open>return self.model.predict_proba(model_input)[:,1]\<close> (the context argument is not used).\<close>

definition SklearnModelWrapper_predict :: "'x SklearnModelWrapper \<Rightarrow> 'x list \<Rightarrow> error + rat list" where
  "SklearnModelWrapper_predict self model_input =
     (case predict_proba (wrapped self) model_input of
        Inl e \<Rightarrow> Inl e
      | Inr a \<Rightarrow> column 1 a)"

record 'x WineQualityModel =
  model :: "'x RandomForestClassifier"

text \<open>The default argument of the constructor: \<^verbatim>\<open>RandomForestClassifier(n_estimators=10, random_state=123)\<close>.\<close>

definition default_model :: "'x RandomForestClassifier" where
  "default_model = \<lparr>n_estimators = 10, random_seed = 123, fitted = None\<rparr>"

definition WineQualityModel_init :: "'x RandomForestClassifier \<Rightarrow> 'x WineQualityModel" where
  "WineQualityModel_init m = \<lparr>model = m\<rparr>"

text \<open>\<open>train\<close> fits the estimator in place: the instance is returned with the fitted estimator.\<close>

definition train ::
  "'x sklearn \<Rightarrow> 'x WineQualityModel \<Rightarrow> 'x list \<Rightarrow> int list \<Rightarrow> error + 'x WineQualityModel" where
  "train sk self X_train y_train =
     (case forest_fit sk (n_estimators (model self)) (random_seed (model self)) X_train y_train of
        Inl e \<Rightarrow> Inl e
      | Inr f \<Rightarrow> Inr (self\<lparr>model := (model self)\<lparr>fitted := Some f\<rparr>\<rparr>))"

definition evaluate ::
  "'x sklearn \<Rightarrow> 'x WineQualityModel \<Rightarrow> 'x list \<Rightarrow> int list \<Rightarrow> error + rat" where
  "evaluate sk self X_test y_test =
     (case predict_proba (model self) X_test of
        Inl e \<Rightarrow> Inl e
      | Inr a \<Rightarrow>
          (case column 1 a of
             Inl e \<Rightarrow> Inl e
           | Inr predictions \<Rightarrow> roc_auc_score sk y_test predictions))"

subsection \<open>A concrete library for the examples\<close>

text \<open>
  The area under the ROC curve in its rank form: the share of (positive, negative) pairs
  that the scores order correctly, a tie counting one half; undefined, hence an error, when
  one of the two classes is absent.
\<close>

definition pair_auc :: "int list \<Rightarrow> rat list \<Rightarrow> error + rat" where
  "pair_auc y_true y_score =
     (let pos = map snd (filter (\<lambda>(l, s). l = 1) (zip y_true y_score));
          neg = map snd (filter (\<lambda>(l, s). l \<noteq> 1) (zip y_true y_score))
      in if pos = [] \<or> neg = [] then Inl ValueError
         else Inr (sum_list (map (\<lambda>a. sum_list (map (\<lambda>b. if b < a then 1 else if a = b then 1 / 2 else 0) neg)) pos)
                    / of_nat (length pos * length neg)))"

text \<open>
  A classifier that learns one threshold on a numeric feature: the mean of the training
  feature values; a row at or above it has probability 3/4 of the class 1, a row below it
  probability 1/4.
\<close>

definition threshold_fit :: "nat \<Rightarrow> int \<Rightarrow> rat list \<Rightarrow> int list \<Rightarrow> error + rat forest" where
  "threshold_fit n seed X y =
     (if X = [] \<or> length X \<noteq> length y then Inl ValueError
      else Inr \<lparr>classes = sort (remdups y),
                proba = (\<lambda>x c. if (sum_list X / of_nat (length X) \<le> x) = (c = 1) then 3 / 4 else 1 / 4)\<rparr>)"

definition example_sklearn :: "rat sklearn" where
  "example_sklearn = \<lparr>forest_fit = threshold_fit, roc_auc_score = pair_auc\<rparr>"

text \<open>An estimator that has been fitted on four rows with both labels.\<close>

definition example_fitted_model :: "rat RandomForestClassifier" where
  "example_fitted_model =
     (case train example_sklearn (WineQualityModel_init default_model) [1, 2, 3, 4] [0, 0, 1, 1] of
        Inr m \<Rightarrow> model m
      | Inl e \<Rightarrow> default_model)"

section \<open>The tracking store and the model registry\<close>

text \<open>
  The tracking server is an external service; the code only issues commands to it. Its
  state is modelled as far as the code reads it back: the runs of the active experiment in
  the order of their creation, the stack of active runs of the client (positions in that
  list, innermost first), the next identifier the server hands out, the clock in
  milliseconds, and the registry with its versions and aliases. A run name is \<open>None\<close> when
  the caller gave none and the client picked one.
\<close>

datatype run_status = RUNNING | FINISHED | FAILED

record run =
  run_id :: nat
  run_name :: "string option"
  parent_run :: "nat option"
  start_time :: nat
  status :: run_status
  params :: "(string \<times> nat) list"
  metrics :: "(string \<times> rat) list"
  artifacts :: "string list"

text \<open>A model version is bound to the artifact \<^verbatim>\<open>runs:/<run_id>/<path>\<close>.\<close>

record model_version =
  registered_name :: string
  version :: nat
  source :: "nat \<times> string"
  current_stage :: string

record mlflow =
  runs :: "run list"
  active :: "nat list"
  uuid :: nat
  clock :: nat
  versions :: "model_version list"
  aliases :: "string \<times> string \<Rightarrow> nat option"

definition start_run :: "string option \<Rightarrow> bool \<Rightarrow> mlflow \<Rightarrow> error + mlflow" where
  "start_run name nested w =
     (if active w \<noteq> [] \<and> \<not> nested then Inl MlflowException
      else Inr (w\<lparr>runs := runs w @
                    [\<lparr>run_id = uuid w, run_name = name,
                      parent_run = (case active w of [] \<Rightarrow> None | p # _ \<Rightarrow> Some p),
                      start_time = clock w, status = RUNNING,
                      params = [], metrics = [], artifacts = []\<rparr>],
                 active := length (runs w) # active w,
                 uuid := Suc (uuid w)\<rparr>))"

text \<open>The logging functions start a run of their own when none is active.\<close>

definition ensure_active :: "mlflow \<Rightarrow> mlflow" where
  "ensure_active w =
     (if active w = [] then (case start_run None False w of Inr w' \<Rightarrow> w' | Inl e \<Rightarrow> w) else w)"

definition update_run :: "nat \<Rightarrow> (run \<Rightarrow> run) \<Rightarrow> mlflow \<Rightarrow> mlflow" where
  "update_run a f w = (if a < length (runs w) then w\<lparr>runs := (runs w)[a := f (runs w ! a)]\<rparr> else w)"

text \<open>A parameter is written once: logging another value under the same key is refused.\<close>

definition log_param :: "string \<Rightarrow> nat \<Rightarrow> mlflow \<Rightarrow> error + mlflow" where
  "log_param key v w =
     (let w1 = ensure_active w
      in case active w1 of
           [] \<Rightarrow> Inl MlflowException
         | a # _ \<Rightarrow>
             if a < length (runs w1) then
               (case map_of (params (runs w1 ! a)) key of
                  Some v' \<Rightarrow> if v' = v then Inr w1 else Inl MlflowException
                | None \<Rightarrow> Inr (update_run a (\<lambda>r. r\<lparr>params := params r @ [(key, v)]\<rparr>) w1))
             else Inl MlflowException)"

definition log_metric :: "string \<Rightarrow> rat \<Rightarrow> mlflow \<Rightarrow> mlflow" where
  "log_metric key v w =
     (let w1 = ensure_active w
      in case active w1 of
           [] \<Rightarrow> w1
         | a # _ \<Rightarrow> update_run a (\<lambda>r. r\<lparr>metrics := metrics r @ [(key, v)]\<rparr>) w1)"

definition log_artifact :: "string \<Rightarrow> mlflow \<Rightarrow> mlflow" where
  "log_artifact path w =
     (let w1 = ensure_active w
      in case active w1 of
           [] \<Rightarrow> w1
         | a # _ \<Rightarrow> update_run a (\<lambda>r. r\<lparr>artifacts := artifacts r @ [path]\<rparr>) w1)"

definition end_run :: "run_status \<Rightarrow> mlflow \<Rightarrow> mlflow" where
  "end_run st w =
     (case active w of
        [] \<Rightarrow> w
      | a # rest \<Rightarrow> (update_run a (\<lambda>r. r\<lparr>status := st\<rparr>) w)\<lparr>active := rest\<rparr>)"

text \<open>
  \<^verbatim>\<open>with mlflow.start_run(...)\<close>: the run is ended on every exit of the block, as
  \<open>FINISHED\<close> when the block returns and as \<open>FAILED\<close> when it raises.
\<close>

definition with_run ::
  "string option \<Rightarrow> bool \<Rightarrow> (mlflow \<Rightarrow> (error + 'a) \<times> mlflow) \<Rightarrow> mlflow \<Rightarrow> (error + 'a) \<times> mlflow" where
  "with_run name nested body w =
     (case start_run name nested w of
        Inl e \<Rightarrow> (Inl e, w)
      | Inr w1 \<Rightarrow>
          (case body w1 of
             (Inl e, w2) \<Rightarrow> (Inl e, end_run FAILED w2)
           | (Inr a, w2) \<Rightarrow> (Inr a, end_run FINISHED w2)))"

text \<open>The value of a metric of a run is the value logged last under its key.\<close>

definition metric :: "string \<Rightarrow> run \<Rightarrow> rat option" where
  "metric key r = map_of (rev (metrics r)) key"

text \<open>
  \<open>search_runs(filter_string, order_by)\<close> as the code uses it: an optional filter on the
  run name and an optional \<^verbatim>\<open>metrics.<key> DESC\<close>. The server orders by start time, latest
  first, and by identifier among equal start times; a requested order comes before that
  one, and the runs without the metric come after the others.
\<close>

definition search_runs :: "string option \<Rightarrow> string option \<Rightarrow> mlflow \<Rightarrow> run list" where
  "search_runs filter_name order_metric w =
     (let found = filter (\<lambda>r. case filter_name of None \<Rightarrow> True | Some n \<Rightarrow> run_name r = Some n) (runs w);
          base = sort_key (\<lambda>r. - int (start_time r)) (sort_key run_id found)
      in case order_metric of
           None \<Rightarrow> base
         | Some k \<Rightarrow>
             sort_key (\<lambda>r. - the (metric k r)) (filter (\<lambda>r. metric k r \<noteq> None) base)
               @ filter (\<lambda>r. metric k r = None) base)"

text \<open>\<^verbatim>\<open>.iloc[0]\<close> raises on an empty result.\<close>

definition iloc0 :: "'a list \<Rightarrow> error + 'a" where
  "iloc0 xs = (case xs of [] \<Rightarrow> Inl IndexError | x # _ \<Rightarrow> Inr x)"

text \<open>
  \<open>mlflow.register_model\<close>: the run of the URI must exist; the new version gets the number
  after the highest version the name has had, at stage \<open>None\<close>.
\<close>

definition mlflow_register_model :: "nat \<times> string \<Rightarrow> string \<Rightarrow> mlflow \<Rightarrow> error + (model_version \<times> mlflow)" where
  "mlflow_register_model uri name w =
     (if fst uri \<notin> set (map run_id (runs w)) then Inl MlflowException
      else
        let mv = \<lparr>registered_name = name,
                  version = Suc (fold max (map version (filter (\<lambda>m. registered_name m = name) (versions w))) 0),
                  source = uri, current_stage = ''None''\<rparr>
        in Inr (mv, w\<lparr>versions := versions w @ [mv]\<rparr>))"

definition set_registered_model_alias :: "string \<Rightarrow> string \<Rightarrow> nat \<Rightarrow> mlflow \<Rightarrow> error + mlflow" where
  "set_registered_model_alias name alias v w =
     (if list_ex (\<lambda>m. registered_name m = name \<and> version m = v) (versions w)
      then Inr (w\<lparr>aliases := (aliases w)((name, alias) \<mapsto> v)\<rparr>)
      else Inl MlflowException)"

definition time_sleep :: "nat \<Rightarrow> mlflow \<Rightarrow> mlflow" where
  "time_sleep seconds w = w\<lparr>clock := clock w + 1000 * seconds\<rparr>"

section \<open>WineQualityModel.log_model and MLflowExperiment\<close>

text \<open>
  \<open>log_model\<close> wraps the estimator, infers the signature from a prediction on the training
  rows (which raises if the prediction does) and logs the artifact
  \<open>random_forest_model\<close> under the active run.
\<close>

definition log_model :: "'x WineQualityModel \<Rightarrow> 'x list \<Rightarrow> mlflow \<Rightarrow> error + mlflow" where
  "log_model self X_train w =
     (let wrappedModel = SklearnModelWrapper_init (model self)
      in case SklearnModelWrapper_predict wrappedModel X_train of
           Inl e \<Rightarrow> Inl e
         | Inr signature_output \<Rightarrow> Inr (log_artifact ''random_forest_model'' w))"

record MLflowExperiment =
  model_name :: string

definition MLflowExperiment_init :: MLflowExperiment where
  "MLflowExperiment_init = \<lparr>model_name = ''wine_quality''\<rparr>"

text \<open>
  The body of the \<^verbatim>\<open>with\<close> block of \<open>run_experiment\<close>. The model is trained in place, so it
  is returned with the result, also when a later statement raises.
\<close>

definition run_experiment_body ::
  "'x sklearn \<Rightarrow> 'x WineQualityModel \<Rightarrow> 'x list \<Rightarrow> 'x list \<Rightarrow> int list \<Rightarrow> int list \<Rightarrow> mlflow
    \<Rightarrow> (error + nat) \<times> 'x WineQualityModel \<times> mlflow" where
  "run_experiment_body sk m X_train X_test y_train y_test w =
     (case train sk m X_train y_train of
        Inl e \<Rightarrow> (Inl e, m, w)
      | Inr m1 \<Rightarrow>
          (case evaluate sk m1 X_test y_test of
             Inl e \<Rightarrow> (Inl e, m1, w)
           | Inr auc_score \<Rightarrow>
               (case log_param ''n_estimators'' (n_estimators (model m1)) w of
                  Inl e \<Rightarrow> (Inl e, m1, w)
                | Inr w1 \<Rightarrow>
                    let w2 = log_metric ''auc'' auc_score w1
                    in (case log_model m1 X_train w2 of
                          Inl e \<Rightarrow> (Inl e, m1, w2)
                        | Inr w3 \<Rightarrow>
                            (case iloc0 (search_runs (Some ''untuned_random_forest'') None w3) of
                               Inl e \<Rightarrow> (Inl e, m1, w3)
                             | Inr r \<Rightarrow> (Inr (run_id r), m1, w3))))))"

definition run_experiment ::
  "'x sklearn \<Rightarrow> MLflowExperiment \<Rightarrow> 'x WineQualityModel \<Rightarrow> 'x list \<Rightarrow> 'x list \<Rightarrow> int list \<Rightarrow> int list
    \<Rightarrow> mlflow \<Rightarrow> (error + nat) \<times> 'x WineQualityModel \<times> mlflow" where
  "run_experiment sk self m X_train X_test y_train y_test w =
     (case start_run (Some ''untuned_random_forest'') False w of
        Inl e \<Rightarrow> (Inl e, m, w)
      | Inr w1 \<Rightarrow>
          (case run_experiment_body sk m X_train X_test y_train y_test w1 of
             (Inl e, m', w2) \<Rightarrow> (Inl e, m', end_run FAILED w2)
           | (Inr i, m', w2) \<Rightarrow> (Inr i, m', end_run FINISHED w2)))"

definition register_model :: "MLflowExperiment \<Rightarrow> nat \<Rightarrow> mlflow \<Rightarrow> (error + model_version) \<times> mlflow" where
  "register_model self rid w =
     (case mlflow_register_model (rid, ''random_forest_model'') (model_name self) w of
        Inl e \<Rightarrow> (Inl e, w)
      | Inr (mv, w1) \<Rightarrow>
          (case set_registered_model_alias (model_name self) ''production'' (version mv) w1 of
             Inl e \<Rightarrow> (Inl e, w1)
           | Inr w2 \<Rightarrow> (Inr mv, time_sleep 15 w2)))"

section \<open>The hyperparameter sweep\<close>

text \<open>
  The boosted-tree library and the search algorithm are parameters: training a booster
  from a point of the search space (with the train and validation parts), predicting with
  it, and suggesting the next point from the trials so far.
\<close>

record ('x, 'p, 'b) xgboost =
  xgb_train :: "'p \<Rightarrow> 'x list \<Rightarrow> int list \<Rightarrow> 'x list \<Rightarrow> int list \<Rightarrow> error + 'b"
  booster_predict :: "'b \<Rightarrow> 'x list \<Rightarrow> rat list"

record 'x partitions =
  train_X :: "'x list"
  train_y :: "int list"
  val_X :: "'x list"
  val_y :: "int list"

text \<open>What a trial reports to the search driver (the attributes of the booster are left out).\<close>

record trial =
  trial_status :: string
  loss :: rat

text \<open>
  \<open>train_model\<close>: one trial, in a nested run. Autologging writes parameters and the
  library's own evaluation metrics, none under the key \<open>auc\<close>, and is left out.
\<close>

definition train_model ::
  "('x, 'p, 'b) xgboost \<Rightarrow> 'x sklearn \<Rightarrow> 'x partitions \<Rightarrow> 'p \<Rightarrow> mlflow \<Rightarrow> (error + trial) \<times> mlflow" where
  "train_model xgb sk ds ps w =
     with_run None True
       (\<lambda>w1. case xgb_train xgb ps (train_X ds) (train_y ds) (val_X ds) (val_y ds) of
                Inl e \<Rightarrow> (Inl e, w1)
              | Inr booster \<Rightarrow>
                  let validation_predictions = booster_predict xgb booster (val_X ds)
                  in (case roc_auc_score sk (val_y ds) validation_predictions of
                        Inl e \<Rightarrow> (Inl e, w1)
                      | Inr auc_score \<Rightarrow>
                          let w2 = log_metric ''auc'' auc_score w1;
                              w3 = log_artifact ''model'' w2
                          in (Inr \<lparr>trial_status = ''ok'', loss = - 1 * auc_score\<rparr>, w3)))
       w"

text \<open>
  The search driver: \<open>max_evals\<close> trials, each at the point suggested from the trials so far;
  a trial that raises is recorded as failed and the sweep goes on. Trials are taken one
  after the other, in the order the driver records them.
\<close>

fun fmin_trials ::
  "('p \<Rightarrow> mlflow \<Rightarrow> (error + trial) \<times> mlflow) \<Rightarrow> (('p \<times> (error + trial)) list \<Rightarrow> 'p) \<Rightarrow> nat
    \<Rightarrow> ('p \<times> (error + trial)) list \<Rightarrow> mlflow \<Rightarrow> ('p \<times> (error + trial)) list \<times> mlflow" where
  "fmin_trials fn suggest 0 trials w = (trials, w)"
| "fmin_trials fn suggest (Suc k) trials w =
     (let ps = suggest trials
      in case fn ps w of (res, w') \<Rightarrow> fmin_trials fn suggest k (trials @ [(ps, res)]) w')"

text \<open>The point of the first trial of least loss among the trials that succeeded.\<close>

fun best_of :: "('p \<times> (error + trial)) list \<Rightarrow> ('p \<times> rat) option \<Rightarrow> ('p \<times> rat) option" where
  "best_of [] acc = acc"
| "best_of ((ps, Inl e) # ts) acc = best_of ts acc"
| "best_of ((ps, Inr t) # ts) acc =
     best_of ts (case acc of
                   None \<Rightarrow> Some (ps, loss t)
                 | Some (q, l) \<Rightarrow> if loss t < l then Some (ps, loss t) else Some (q, l))"

definition fmin ::
  "('p \<Rightarrow> mlflow \<Rightarrow> (error + trial) \<times> mlflow) \<Rightarrow> (('p \<times> (error + trial)) list \<Rightarrow> 'p) \<Rightarrow> nat
    \<Rightarrow> mlflow \<Rightarrow> (error + 'p) \<times> ('p \<times> (error + trial)) list \<times> mlflow" where
  "fmin fn suggest max_evals w =
     (case fmin_trials fn suggest max_evals [] w of
        (trials, w') \<Rightarrow>
          (case best_of trials None of
             None \<Rightarrow> (Inl AllTrialsFailed, trials, w')
           | Some (ps, l) \<Rightarrow> (Inr ps, trials, w')))"

text \<open>
  The sweep of the notebook, in the parent run \<open>xgboost_models\<close>; the notebook runs it with
  \<open>max_evals = 96\<close>. The trials are returned with the best point, as the trials object keeps
  them.
\<close>

definition sweep ::
  "('x, 'p, 'b) xgboost \<Rightarrow> 'x sklearn \<Rightarrow> 'x partitions \<Rightarrow> (('p \<times> (error + trial)) list \<Rightarrow> 'p) \<Rightarrow> nat
    \<Rightarrow> mlflow \<Rightarrow> (error + 'p) \<times> ('p \<times> (error + trial)) list \<times> mlflow" where
  "sweep xgb sk ds suggest max_evals w =
     (case start_run (Some ''xgboost_models'') False w of
        Inl e \<Rightarrow> (Inl e, [], w)
      | Inr w1 \<Rightarrow>
          (case fmin (train_model xgb sk ds) suggest max_evals w1 of
             (Inl e, trials, w2) \<Rightarrow> (Inl e, trials, end_run FAILED w2)
           | (Inr ps, trials, w2) \<Rightarrow> (Inr ps, trials, end_run FINISHED w2)))"

text \<open>\<^verbatim>\<open>best_run = mlflow.search_runs(order_by=['metrics.auc DESC']).iloc[0]\<close>\<close>

definition best_run :: "mlflow \<Rightarrow> error + run" where
  "best_run w = iloc0 (search_runs None (Some ''auc'') w)"

section \<open>Concrete stores and libraries for the examples\<close>

text \<open>A tracking server that has not seen any run.\<close>

definition empty_store :: mlflow where
  "empty_store = \<lparr>runs = [], active = [], uuid = 0, clock = 0, versions = [], aliases = Map.empty\<rparr>"

text \<open>
  A booster that is one threshold on a numeric feature, taken from the point of the search
  space; a negative point makes training raise.
\<close>

definition threshold_xgboost :: "(rat, rat, rat) xgboost" where
  "threshold_xgboost =
     \<lparr>xgb_train = (\<lambda>ps X y Xv yv. if ps < 0 then Inl ValueError else Inr ps),
      booster_predict = (\<lambda>b X. map (\<lambda>x. if b \<le> x then 1 else 0) X)\<rparr>"

definition example_partitions :: "rat partitions" where
  "example_partitions = \<lparr>train_X = [1, 2, 3, 4], train_y = [0, 0, 1, 1], val_X = [1, 2, 3, 4], val_y = [0, 0, 1, 1]\<rparr>"

text \<open>A search algorithm that suggests the points 1, 2, 3, ... in turn.\<close>

definition count_suggest :: "(rat \<times> (error + trial)) list \<Rightarrow> rat" where
  "count_suggest trials = of_nat (length trials) + 1"

text \<open>
  The store after the baseline experiment, and after a sweep of two trials run on the
  store of the baseline experiment.
\<close>

definition baseline_store :: mlflow where
  "baseline_store =
     snd (snd (run_experiment example_sklearn MLflowExperiment_init (WineQualityModel_init default_model)
                 [1, 2, 3, 4] [1, 4] [0, 0, 1, 1] [0, 1] empty_store))"

definition swept_store :: mlflow where
  "swept_store = snd (snd (sweep threshold_xgboost example_sklearn example_partitions count_suggest 2 baseline_store))"

text \<open>
  A store that holds a run of the name \<open>untuned_random_forest\<close> stamped later than the
  clock of the caller.
\<close>

definition later_store :: mlflow where
  "later_store =
     \<lparr>runs = [\<lparr>run_id = 7, run_name = Some ''untuned_random_forest'', parent_run = None,
               start_time = 100, status = FINISHED, params = [(''n_estimators'', 10)],
               metrics = [(''auc'', 1 / 2)], artifacts = [''random_forest_model'']\<rparr>],
      active = [], uuid = 8, clock = 50, versions = [], aliases = Map.empty\<rparr>"

text \<open>The same store read by a caller whose clock is past that start time.\<close>

definition earlier_store :: mlflow where
  "earlier_store = later_store\<lparr>clock := 200\<rparr>"

text \<open>
  Every trial that succeeded has left a run whose metric \<open>auc\<close> is the negated loss it
  reported.
\<close>

definition trials_logged :: "mlflow \<Rightarrow> ('p \<times> (error + trial)) list \<Rightarrow> bool" where
  "trials_logged w trials \<longleftrightarrow>
     (\<forall>(ps, res)\<in>set trials. \<forall>t. res = Inr t \<longrightarrow> Some (- loss t) \<in> set (map (metric ''auc'') (runs w)))"

section \<open>Properties of float rounding\<close>

text \<open>
  Rounding to the nearest double never crosses a double: a value at most a double rounds to
  at most that double. This is what makes a train fraction computed from ratios that sum
  to at least 1 non-positive.
\<close>

lemma round_even_le:
  assumes "y \<le> of_int k"
  shows "round_even y \<le> k"
proof -
  have f: "\<lfloor>y\<rfloor> \<le> k" using assms by (simp add: floor_le_iff)
  show ?thesis
  proof (cases "y - of_int \<lfloor>y\<rfloor> < 1 / 2")
    case True
    then show ?thesis using f by (simp add: round_even_def Let_def)
  next
    case False
    then have "of_int \<lfloor>y\<rfloor> + 1 / 2 \<le> y" by simp
    with assms have "(of_int \<lfloor>y\<rfloor> :: rat) < of_int k" by linarith
    then have "\<lfloor>y\<rfloor> < k" by (simp only: of_int_less_iff)
    then have "\<lfloor>y\<rfloor> + 1 \<le> k" by simp
    with f show ?thesis by (simp add: round_even_def Let_def)
  qed
qed

lemma round_even_ge:
  assumes "of_int k \<le> y"
  shows "k \<le> round_even y"
proof -
  have "k \<le> \<lfloor>y\<rfloor>" using assms by (simp add: le_floor_iff)
  then show ?thesis by (simp add: round_even_def Let_def)
qed

lemma round_even_nonneg: "0 \<le> y \<Longrightarrow> 0 \<le> round_even y"
  using round_even_ge [of 0 y] by simp

lemma ilog2_bounds:
  assumes "0 < x"
  shows "2 powi ilog2 x \<le> x \<and> x < 2 powi (ilog2 x + 1)"
proof -
  obtain p q where pq: "quotient_of x = (p, q)" by (cases "quotient_of x")
  have q: "0 < q" using pq by (rule quotient_of_denom_pos)
  have x: "x = of_int p / of_int q" using pq by (rule quotient_of_div)
  have p: "0 < p" using assms q x by (simp add: zero_less_divide_iff)
  define bp where "bp = bitlen p"
  define bq where "bq = bitlen q"
  have bp1: "1 \<le> bp" using p unfolding bp_def by (metis bitlen_eq_zero_iff bitlen_nonneg int_one_le_iff_zero_less le_less not_le)
  have bq1: "1 \<le> bq" using q unfolding bq_def by (metis bitlen_eq_zero_iff bitlen_nonneg int_one_le_iff_zero_less le_less not_le)
  have pw: "\<And>b. 0 \<le> b \<Longrightarrow> (2::rat) powi b = of_int (2 ^ nat b)"
    by (simp add: power_int_def)
  from bitlen_bounds [OF p] have bp: "2 ^ nat (bp - 1) \<le> p" "p < 2 ^ nat bp"
    unfolding bp_def by blast+
  have P: "(2::rat) powi (bp - 1) \<le> of_int p" "of_int p < (2::rat) powi bp"
    using bp bp1 by (simp_all only: pw of_int_le_iff of_int_less_iff)
  from bitlen_bounds [OF q] have bq: "2 ^ nat (bq - 1) \<le> q" "q < 2 ^ nat bq"
    unfolding bq_def by blast+
  have Q: "(2::rat) powi (bq - 1) \<le> of_int q" "of_int q < (2::rat) powi bq"
    using bq bq1 by (simp_all only: pw of_int_le_iff of_int_less_iff)
  have qpos: "(0::rat) < of_int q" using q by simp
  have up: "x < 2 powi (bp - bq + 1)"
  proof -
    have "x * of_int q = of_int p" using x qpos by simp
    also have "\<dots> < 2 powi bp" by (rule P(2))
    also have "\<dots> = 2 powi (bp - bq + 1) * 2 powi (bq - 1)"
      by (simp flip: power_int_add)
    also have "\<dots> \<le> 2 powi (bp - bq + 1) * of_int q"
      using Q(1) by (intro mult_left_mono) simp_all
    finally show ?thesis using qpos by simp
  qed
  have lo: "2 powi (bp - bq - 1) < x"
  proof -
    have "(2::rat) powi (bp - bq - 1) * of_int q < 2 powi (bp - bq - 1) * 2 powi bq"
      using Q(2) by (intro mult_strict_left_mono) simp_all
    also have "\<dots> = 2 powi (bp - 1)" by (simp flip: power_int_add)
    also have "\<dots> \<le> of_int p" by (rule P(1))
    also have "\<dots> = x * of_int q" using x qpos by simp
    finally show ?thesis using qpos by simp
  qed
  show ?thesis
  proof (cases "2 powi (bp - bq) \<le> x")
    case True
    then have "ilog2 x = bp - bq" using pq by (simp add: ilog2_def bp_def bq_def)
    with True up show ?thesis by simp
  next
    case False
    then have "ilog2 x = bp - bq - 1" using pq by (simp add: ilog2_def bp_def bq_def)
    with False lo show ?thesis by simp
  qed
qed

lemma ilog2_mono:
  assumes "0 < x" "x \<le> y"
  shows "ilog2 x \<le> ilog2 y"
proof -
  have "2 powi ilog2 x \<le> x" using ilog2_bounds [OF assms(1)] by simp
  also have "\<dots> \<le> y" by fact
  also have "\<dots> < 2 powi (ilog2 y + 1)" using ilog2_bounds [of y] assms by simp
  finally have "(2::rat) powi ilog2 x < 2 powi (ilog2 y + 1)" .
  have "ilog2 x < ilog2 y + 1"
  proof (rule ccontr)
    assume "\<not> ilog2 x < ilog2 y + 1"
    then have "ilog2 y + 1 \<le> ilog2 x" by simp
    then have "(2::rat) powi (ilog2 y + 1) \<le> 2 powi ilog2 x"
      by (rule power_int_increasing) simp
    with \<open>(2::rat) powi ilog2 x < 2 powi (ilog2 y + 1)\<close> show False by simp
  qed
  then show ?thesis by simp
qed

lemma fl_zero: "fl 0 = 0"
  by (simp add: fl_def)

lemma fl_minus: "fl (- x) = - fl x"
  by (simp add: fl_def Let_def)

lemma fl_pos:
  assumes "0 < x"
  shows "fl x = of_int (round_even (x / 2 powi (max (ilog2 x - 52) (- 1074))))
                  * 2 powi (max (ilog2 x - 52) (- 1074))"
  using assms by (simp add: fl_def Let_def)

lemma fl_nonneg:
  assumes "0 \<le> x"
  shows "0 \<le> fl x"
proof (cases "x = 0")
  case True
  then show ?thesis by (simp add: fl_zero)
next
  case False
  with assms have x: "0 < x" by simp
  let ?u = "(2::rat) powi (max (ilog2 x - 52) (- 1074))"
  have u: "0 < ?u" by simp
  have "0 \<le> x / ?u" using x u by simp
  then have "0 \<le> round_even (x / ?u)" by (rule round_even_nonneg)
  then have "0 \<le> of_int (round_even (x / ?u)) * ?u" using u by simp
  then show ?thesis by (simp only: fl_pos [OF x])
qed

lemma fl_nonpos:
  assumes "x \<le> 0"
  shows "fl x \<le> 0"
proof -
  have "0 \<le> fl (- x)" using assms by (intro fl_nonneg) simp
  then show ?thesis by (simp add: fl_minus)
qed

lemma powi_split:
  assumes "a \<le> b"
  shows "(2::rat) powi b = of_int (2 ^ nat (b - a)) * 2 powi a"
proof -
  have "(2::rat) powi b = 2 powi (b - a) * 2 powi a" by (simp flip: power_int_add)
  also have "(2::rat) powi (b - a) = of_int (2 ^ nat (b - a))"
    using assms by (simp add: power_int_def)
  finally show ?thesis .
qed

lemma fl_le_double_pos:
  assumes x: "0 < x" and xd: "x \<le> d" and d: "fl d = d"
  shows "fl x \<le> d"
proof -
  define qx where "qx = max (ilog2 x - 52) (- 1074)"
  define qd where "qd = max (ilog2 d - 52) (- 1074)"
  have dpos: "0 < d" using x xd by simp
  have "ilog2 x \<le> ilog2 d" using x xd by (rule ilog2_mono)
  then have q: "qx \<le> qd" by (simp add: qx_def qd_def)
  let ?ux = "(2::rat) powi qx" and ?ud = "(2::rat) powi qd"
  have ux: "0 < ?ux" by simp
  define kd where "kd = round_even (d / ?ud)"
  have dk: "d = of_int kd * ?ud"
    using d fl_pos [OF dpos] by (simp add: kd_def qd_def)
  define K where "K = kd * 2 ^ nat (qd - qx)"
  have dK: "d = of_int K * ?ux"
    by (subst dk, subst powi_split [OF q]) (simp add: K_def)
  have "x / ?ux \<le> d / ?ux" using xd ux by (simp add: divide_right_mono)
  also have "d / ?ux = of_int K" using dK ux by simp
  finally have "round_even (x / ?ux) \<le> K" by (rule round_even_le)
  then have "(of_int (round_even (x / ?ux)) :: rat) \<le> of_int K" by (simp only: of_int_le_iff)
  then have "of_int (round_even (x / ?ux)) * ?ux \<le> of_int K * ?ux"
    using ux by (intro mult_right_mono) simp_all
  then show ?thesis unfolding fl_pos [OF x] qx_def dK [unfolded qx_def, symmetric] .
qed

lemma fl_ge_double_pos:
  assumes dpos: "0 < d" and dx: "d \<le> x" and d: "fl d = d"
  shows "d \<le> fl x"
proof -
  define qx where "qx = max (ilog2 x - 52) (- 1074)"
  define qd where "qd = max (ilog2 d - 52) (- 1074)"
  have x: "0 < x" using dpos dx by simp
  have il: "ilog2 d \<le> ilog2 x" using dpos dx by (rule ilog2_mono)
  then have q: "qd \<le> qx" by (simp add: qx_def qd_def)
  let ?ux = "(2::rat) powi qx" and ?ud = "(2::rat) powi qd"
  have ux: "0 < ?ux" by simp
  have flx: "fl x = of_int (round_even (x / ?ux)) * ?ux"
    unfolding qx_def by (rule fl_pos [OF x])
  show ?thesis
  proof (cases "qd = qx")
    case True
    define kd where "kd = round_even (d / ?ud)"
    have dk: "d = of_int kd * ?ux"
      using d fl_pos [OF dpos] True by (simp add: kd_def qd_def)
    have "of_int kd = d / ?ux" using dk ux by simp
    also have "\<dots> \<le> x / ?ux" using dx ux by (simp add: divide_right_mono)
    finally have "kd \<le> round_even (x / ?ux)" by (rule round_even_ge)
    then have "(of_int kd :: rat) \<le> of_int (round_even (x / ?ux))" by (simp only: of_int_le_iff)
    then have "of_int kd * ?ux \<le> of_int (round_even (x / ?ux)) * ?ux"
      using ux by (intro mult_right_mono) simp_all
    then show ?thesis unfolding flx dk [symmetric] .
  next
    case False
    with q have lt: "qd < qx" by simp
    then have qx: "qx = ilog2 x - 52" and "ilog2 d - 52 < qx"
      by (simp_all add: qx_def qd_def max_def split: if_splits)
    then have e: "ilog2 d + 1 \<le> ilog2 x" by simp
    have "d < 2 powi (ilog2 d + 1)" using ilog2_bounds [OF dpos] by simp
    also have "\<dots> \<le> 2 powi ilog2 x" using e by (rule power_int_increasing) simp
    finally have dlt: "d < 2 powi ilog2 x" .
    have le: "2 powi ilog2 x \<le> x" using ilog2_bounds [OF x] by simp
    have sp: "(2::rat) powi ilog2 x = of_int (2 ^ 52) * ?ux"
      using powi_split [of qx "ilog2 x"] qx by simp
    have "(of_int (2 ^ 52) :: rat) = 2 powi ilog2 x / ?ux" using sp ux by simp
    also have "\<dots> \<le> x / ?ux" using le ux by (simp add: divide_right_mono)
    finally have "2 ^ 52 \<le> round_even (x / ?ux)" by (rule round_even_ge)
    then have "(of_int (2 ^ 52) :: rat) \<le> of_int (round_even (x / ?ux))" by (simp only: of_int_le_iff)
    then have "of_int (2 ^ 52) * ?ux \<le> of_int (round_even (x / ?ux)) * ?ux"
      using ux by (intro mult_right_mono) simp_all
    then have "2 powi ilog2 x \<le> fl x" unfolding flx sp .
    with dlt show ?thesis by simp
  qed
qed

lemma fl_le_double:
  assumes xd: "x \<le> d" and d: "fl d = d"
  shows "fl x \<le> d"
proof -
  consider "0 < x" | "x = 0" | "x < 0" "0 \<le> d" | "x < 0" "d < 0" by linarith
  then show ?thesis
  proof cases
    case 1
    then show ?thesis using xd d by (rule fl_le_double_pos)
  next
    case 2
    then show ?thesis using xd by (simp add: fl_zero)
  next
    case 3
    have "fl x \<le> 0" using 3(1) by (intro fl_nonpos) simp
    with 3(2) show ?thesis by simp
  next
    case 4
    have "- d \<le> fl (- x)"
      using 4 xd d by (intro fl_ge_double_pos) (simp_all add: fl_minus)
    then show ?thesis by (simp add: fl_minus)
  qed
qed

section \<open>Properties of the data preparation\<close>

subsection \<open>Auxiliary facts\<close>

lemma numpy_ok_rev: "numpy_ok rev_numpy"
  by (simp add: numpy_ok_def rev_numpy_def)

lemma numpy_ok_length: "numpy_ok np \<Longrightarrow> length (fst (permutation np g n)) = n"
  unfolding numpy_ok_def by (metis card_atLeastLessThan diff_zero distinct_card)

lemma numpy_ok_perm:
  "numpy_ok np \<Longrightarrow> distinct (fst (permutation np g n)) \<and> set (fst (permutation np g n)) = {0..<n}"
  unfolding numpy_ok_def by blast

text \<open>The two size validations together, for a train fraction alone and for a test fraction alone.\<close>

lemma sizes_train_only:
  assumes "0 < r" "r < 1" "0 < k" "k < int n" "k = \<lfloor>fmul r (float_of_nat n)\<rfloor>"
  shows "validate_shuffle_split n None (Some r) = Inr (k, int n - k)"
    and "validate_shuffle_split_int n (int n - k) k = Inr (nat k, n - nat k)"
  using assms(1-4)
  by (simp_all add: validate_shuffle_split_def validate_shuffle_split_int_def Let_def
      nat_diff_distrib assms(5) [symmetric])

lemma sizes_test_only:
  assumes "0 < q" "q < 1" "0 < k" "k < int n" "k = \<lceil>fmul q (float_of_nat n)\<rceil>"
  shows "validate_shuffle_split n (Some q) None = Inr (int n - k, k)"
    and "validate_shuffle_split_int n k (int n - k) = Inr (n - nat k, nat k)"
  using assms(1-4)
  by (simp_all add: validate_shuffle_split_def validate_shuffle_split_int_def Let_def
      nat_diff_distrib assms(5) [symmetric])

lemma safe_indexing_ok:
  "\<forall>i\<in>set idx. i < length xs \<Longrightarrow> safe_indexing xs idx = Inr (map ((!) xs) idx)"
  by (simp add: safe_indexing_def list_all_iff)

lemma train_test_split_returns:
  assumes ok: "numpy_ok np"
    and len: "length y = length X"
    and v1: "validate_shuffle_split (length X) ts tr = Inr (a0, b0)"
    and v2: "validate_shuffle_split_int (length X) b0 a0 = Inr (a, b)"
  shows "train_test_split np X y ts tr (RSInt s) g =
           (Inr (map ((!) X) (take a (drop b (fst (permutation np (seed_rng np s) (length X))))),
                 map ((!) X) (take b (fst (permutation np (seed_rng np s) (length X)))),
                 map ((!) y) (take a (drop b (fst (permutation np (seed_rng np s) (length X))))),
                 map ((!) y) (take b (fst (permutation np (seed_rng np s) (length X))))), g)"
proof -
  let ?p = "fst (permutation np (seed_rng np s) (length X))"
  have inr: "\<forall>i\<in>set ?p. i < length X"
    using numpy_ok_perm [OF ok, of "seed_rng np s" "length X"] by simp
  have t1: "\<forall>i\<in>set (take b ?p). i < length X" using inr by (meson in_set_takeD)
  have t2: "\<forall>i\<in>set (take a (drop b ?p)). i < length X"
    using inr by (meson in_set_takeD in_set_dropD)
  have t1y: "\<forall>i\<in>set (take b ?p). i < length y" using t1 len by simp
  have t2y: "\<forall>i\<in>set (take a (drop b ?p)). i < length y" using t2 len by simp
  show ?thesis
    by (simp add: train_test_split_def len v1 v2 shuffle_indices_def Let_def
        safe_indexing_ok [OF t1] safe_indexing_ok [OF t2]
        safe_indexing_ok [OF t1y] safe_indexing_ok [OF t2y])
qed

lemma fdiv_pos_nonzero: "0 < fdiv x y \<Longrightarrow> y \<noteq> 0"
  by (auto simp: fdiv_def fl_zero)

lemma split_data_returns:
  assumes ok: "numpy_ok np"
    and d: "data self = Some d"
    and r: "r = fsub (fsub 1 test_size) val_size" "0 < r" "r < 1"
    and a: "a = \<lfloor>fmul r (float_of_nat (length d))\<rfloor>" "0 < a" "a < int (length d)"
    and q: "q = fdiv val_size (fadd test_size val_size)" "0 < q" "q < 1"
    and b: "b = \<lceil>fmul q (float_of_nat (length d - nat a))\<rceil>" "0 < b" "b < int (length d - nat a)"
    and p: "p = fst (permutation np (seed_rng np 123) (length d))"
    and p2: "p2 = fst (permutation np (seed_rng np 123) (length d - nat a))"
  shows "split_data np self test_size val_size g =
    (Inr (map ((!) (map (\<lambda>r. (feats r, is_red r)) d)) (drop (length d - nat a) p),
          map ((!) (map (\<lambda>r. (feats r, is_red r)) d)) (map ((!) (take (length d - nat a) p)) (drop (nat b) p2)),
          map ((!) (map (\<lambda>r. (feats r, is_red r)) d)) (map ((!) (take (length d - nat a) p)) (take (nat b) p2)),
          map ((!) (map quality d)) (drop (length d - nat a) p),
          map ((!) (map quality d)) (map ((!) (take (length d - nat a) p)) (drop (nat b) p2)),
          map ((!) (map quality d)) (map ((!) (take (length d - nat a) p)) (take (nat b) p2))), g)"
proof -
  let ?X = "map (\<lambda>r. (feats r, is_red r)) d" and ?y = "map quality d"
  let ?n = "length d"
  let ?m = "?n - nat a"
  have lp: "length p = ?n" unfolding p by (rule numpy_ok_length [OF ok])
  have lp2: "length p2 = ?m" unfolding p2 by (rule numpy_ok_length [OF ok])
  have an: "nat a \<le> ?n" using a(2,3) by linarith
  have tka: "take (nat a) (drop ?m p) = drop ?m p" using lp an by simp
  let ?Xrem = "map ((!) ?X) (take ?m p)" and ?yrem = "map ((!) ?y) (take ?m p)"
  have a': "a < int (length ?X)" "a = \<lfloor>fmul r (float_of_nat (length ?X))\<rfloor>"
    using a by simp_all
  have s1: "train_test_split np ?X ?y None (Some r) (RSInt 123) g
              = (Inr (map ((!) ?X) (drop ?m p), ?Xrem, map ((!) ?y) (drop ?m p), ?yrem), g)"
    using train_test_split_returns [where X = ?X and y = ?y and s = 123 and g = g, OF ok _
        sizes_train_only(1) [OF r(2,3) a(2) a'] sizes_train_only(2) [OF r(2,3) a(2) a']]
    by (simp add: tka [unfolded p] p)
  have lrem: "length ?Xrem = ?m" "length ?yrem = ?m" using lp by simp_all
  have bm: "nat b \<le> ?m" using b(2,3) by linarith
  have tkb: "take (?m - nat b) (drop (nat b) p2) = drop (nat b) p2" using lp2 by simp
  have inr: "\<forall>i\<in>set p2. i < ?m"
    using numpy_ok_perm [OF ok, of "seed_rng np 123" ?m] p2 by simp
  have in_d: "\<forall>i\<in>set (drop (nat b) p2). i < ?m" using inr by (meson in_set_dropD)
  have in_t: "\<forall>i\<in>set (take (nat b) p2). i < ?m" using inr by (meson in_set_takeD)
  have nth_rem_X: "\<And>is. \<forall>i\<in>set is. i < ?m \<Longrightarrow> map ((!) ?Xrem) is = map ((!) ?X) (map ((!) (take ?m p)) is)"
    using lp by (auto simp del: nth_take)
  have nth_rem_y: "\<And>is. \<forall>i\<in>set is. i < ?m \<Longrightarrow> map ((!) ?yrem) is = map ((!) ?y) (map ((!) (take ?m p)) is)"
    using lp by (auto simp del: nth_take)
  have b': "b = \<lceil>fmul q (float_of_nat (length ?Xrem))\<rceil>" "b < int (length ?Xrem)"
    using b lrem by simp_all
  have s2: "train_test_split np ?Xrem ?yrem (Some q) None (RSInt 123) g
              = (Inr (map ((!) ?X) (map ((!) (take ?m p)) (drop (nat b) p2)),
                      map ((!) ?X) (map ((!) (take ?m p)) (take (nat b) p2)),
                      map ((!) ?y) (map ((!) (take ?m p)) (drop (nat b) p2)),
                      map ((!) ?y) (map ((!) (take ?m p)) (take (nat b) p2))), g)"
    using train_test_split_returns [where X = ?Xrem and y = ?yrem and s = 123 and g = g, OF ok _
        sizes_test_only(1) [OF q(2,3) b(2) b'(2) b'(1)]
        sizes_test_only(2) [OF q(2,3) b(2) b'(2) b'(1)]]
    by (simp only: lrem tkb p2 [symmetric] nth_rem_X [OF in_d] nth_rem_X [OF in_t]
        nth_rem_y [OF in_d] nth_rem_y [OF in_t])
  have nz: "fadd test_size val_size \<noteq> 0" using q(1,2) fdiv_pos_nonzero by blast
  show ?thesis
    by (simp add: split_data_def d Let_def r(1) [symmetric] s1 nz q(1) [symmetric] s2)
qed

lemma reindex_perm:
  assumes dx: "distinct xs" and dp: "distinct p" and sp: "set p = {0..<length xs}"
  shows "distinct (map ((!) xs) p) \<and> set (map ((!) xs) p) = set xs"
proof -
  have "inj_on ((!) xs) (set p)"
    using dx sp by (intro inj_on_nth) auto
  with dp have "distinct (map ((!) xs) p)" by (simp add: distinct_map)
  moreover have "set (map ((!) xs) p) = set xs"
    using sp nth_image [of "length xs" xs] by simp
  ultimately show ?thesis by blast
qed

lemma map_nth_map:
  "\<forall>i\<in>set is. i < length xs \<Longrightarrow> map ((!) (map f xs)) is = map (\<lambda>i. f (xs ! i)) is"
  by simp

lemma train_test_split_RSInt:
  "train_test_split np X y ts tr (RSInt s) g =
     (fst (train_test_split np X y ts tr (RSInt s) g0), g)"
  by (simp add: train_test_split_def shuffle_indices_def Let_def
      split: sum.splits prod.splits)

lemma split_data_RSInt:
  "split_data np self t v g = (fst (split_data np self t v g0), g)"
proof (cases "data self")
  case None
  then show ?thesis by (simp add: split_data_def)
next
  case (Some d)
  let ?X = "map (\<lambda>r. (feats r, is_red r)) d" and ?y = "map quality d"
  let ?r1 = "fst (train_test_split np ?X ?y None (Some (fsub (fsub 1 t) v)) (RSInt 123) g0)"
  have 1: "\<And>h. train_test_split np ?X ?y None (Some (fsub (fsub 1 t) v)) (RSInt 123) h = (?r1, h)"
    by (rule train_test_split_RSInt)
  show ?thesis
  proof (cases ?r1)
    case (Inl e)
    with Some 1 show ?thesis by (simp add: split_data_def)
  next
    case (Inr q)
    obtain a b c d' where q: "q = (a, b, c, d')" by (cases q) auto
    let ?r2 = "fst (train_test_split np b d' (Some (fdiv v (fadd t v))) None (RSInt 123) g0)"
    have 2: "\<And>h. train_test_split np b d' (Some (fdiv v (fadd t v))) None (RSInt 123) h = (?r2, h)"
      by (rule train_test_split_RSInt)
    from Some 1 2 Inr q show ?thesis
      by (cases ?r2) (auto simp: split_data_def)
  qed
qed

lemma binarize_row_twice:
  fixes r :: "'f row"
  shows "r\<lparr>quality := (if quality r \<ge> 7 then 1 else 0)\<rparr>
           \<lparr>quality := (if quality (r\<lparr>quality := (if quality r \<ge> 7 then 1 else 0)\<rparr>) \<ge> 7 then 1 else 0)\<rparr>
         = r\<lparr>quality := (if quality r \<ge> 7 then 1 else 0)\<rparr> \<longleftrightarrow> quality r < 7"
  by (cases r) simp

lemma example_processor_data:
  "data example_processor = Some (the (data example_processor))"
  by code_simp

lemma example_fractions:
  "0 < fsub (fsub 1 (fl (1 / 10))) (fl (3 / 10))"
  "fsub (fsub 1 (fl (1 / 10))) (fl (3 / 10)) < 1"
  "0 < fdiv (fl (3 / 10)) (fadd (fl (1 / 10)) (fl (3 / 10)))"
  "fdiv (fl (3 / 10)) (fadd (fl (1 / 10)) (fl (3 / 10))) < 1"
  by code_simp+

lemma example_train_rows:
  "(6::int) = \<lfloor>fmul (fsub (fsub 1 (fl (1 / 10))) (fl (3 / 10)))
                 (float_of_nat (length (the (data example_processor))))\<rfloor>"
  "6 < int (length (the (data example_processor)))"
  "(4::nat) = length (the (data example_processor)) - nat 6"
  by code_simp+

lemma example_test_rows:
  "(3::int) = \<lceil>fmul (fdiv (fl (3 / 10)) (fadd (fl (1 / 10)) (fl (3 / 10)))) (float_of_nat 4)\<rceil>"
  by code_simp

subsection \<open>Label binarization\<close>

text \<open>
  Claim C2 (amended). Applying the binarization \<open>quality := 1 if quality \<ge> 7 else 0\<close> a
  second time gives the same label column as applying it once exactly for the datasets in
  which no raw quality reaches 7: the labels after one application are 0 or 1, both below
  the threshold, so a second application sends every label 1 to 0.
\<close>

theorem binarize_quality_twice:
  "binarize_quality (binarize_quality d) = binarize_quality d \<longleftrightarrow> (\<forall>r\<in>set d. quality r < 7)"
  unfolding binarize_quality_def map_map map_eq_conv comp_def binarize_row_twice ..

theorem binarize_quality_twice_witness:
  "binarize_quality (binarize_quality
     [\<lparr>feats = (), is_red = 1, quality = 5\<rparr>, \<lparr>feats = (), is_red = 0, quality = 6\<rparr>])
   = binarize_quality [\<lparr>feats = (), is_red = 1, quality = 5\<rparr>, \<lparr>feats = (), is_red = 0, quality = 6\<rparr>]"
  using binarize_quality_twice
    [of "[\<lparr>feats = (), is_red = 1, quality = 5\<rparr>, \<lparr>feats = (), is_red = 0, quality = 6\<rparr>]"]
  by simp

text \<open>
  Claim C2 as stated fails on a wine of raw quality 7: one application labels it 1, two
  applications label it 0.
\<close>

theorem binarize_quality_not_idempotent:
  "binarize_quality (binarize_quality [\<lparr>feats = (), is_red = 1, quality = 7\<rparr>])
     \<noteq> binarize_quality [\<lparr>feats = (), is_red = 1, quality = 7\<rparr>]"
  by (simp add: binarize_quality_def)

subsection \<open>The split\<close>

text \<open>
  The split on ten rows at the float ratios 0.3 and 0.2: the train fraction
  \<^verbatim>\<open>1-0.3-0.2\<close> is the float below one half, so four rows (not five) are kept for training,
  and validation and test receive three rows each.
\<close>

lemma split_data_float_sizes_example:
  "split_data rev_numpy example_processor (fl (3 / 10)) (fl (2 / 10)) 0
     = (Inr ([(9, 1), (8, 1), (7, 1), (6, 1)], [(3, 0), (4, 0), (5, 0)],
             [(0, 0), (1, 0), (2, 0)], [0, 0, 1, 0], [1, 0, 0], [0, 1, 0]), 0)"
  by code_simp

text \<open>The split on the same rows at the float ratios 0.1 and 0.3.\<close>

lemma split_data_example:
  "split_data rev_numpy example_processor (fl (1 / 10)) (fl (3 / 10)) 0
     = (Inr ([(1, 0), (0, 0), (9, 1), (8, 1), (7, 1), (6, 1)], [(5, 0)],
             [(2, 0), (3, 0), (4, 0)], [1, 0, 0, 0, 1, 0], [0], [0, 1, 0]), 0)"
  by code_simp

text \<open>
  Claim C3 (amended). For float ratios whose computed train fraction \<open>1 - test - val\<close> and
  computed second fraction \<open>val / (test + val)\<close> lie strictly between 0 and 1, on a dataset
  large enough that the train part and the two parts of the second split each get at least
  one row, \<open>split_data\<close> returns: the three parts are the rows at three lists of row
  positions that are pairwise disjoint and together are all positions of the dataset,
  features and labels of a part are taken at the same positions, the sizes add up to the
  number of rows, and the train part has the floor of the float product of the train
  fraction and the row count.
\<close>

theorem split_data_partition:
  assumes ok: "numpy_ok np"
    and d: "data self = Some d"
    and r: "r = fsub (fsub 1 test_size) val_size" "0 < r" "r < 1"
    and a: "a = \<lfloor>fmul r (float_of_nat (length d))\<rfloor>" "0 < a" "a < int (length d)"
    and q: "q = fdiv val_size (fadd test_size val_size)" "0 < q" "q < 1"
    and b: "b = \<lceil>fmul q (float_of_nat (length d - nat a))\<rceil>" "0 < b" "b < int (length d - nat a)"
  shows "\<exists>I_train I_val I_test.
            split_data np self test_size val_size g =
              (Inr (map (\<lambda>i. (feats (d ! i), is_red (d ! i))) I_train,
                    map (\<lambda>i. (feats (d ! i), is_red (d ! i))) I_val,
                    map (\<lambda>i. (feats (d ! i), is_red (d ! i))) I_test,
                    map (\<lambda>i. quality (d ! i)) I_train,
                    map (\<lambda>i. quality (d ! i)) I_val,
                    map (\<lambda>i. quality (d ! i)) I_test), g)
          \<and> distinct (I_train @ I_val @ I_test)
          \<and> set I_train \<union> set I_val \<union> set I_test = {0..<length d}
          \<and> length I_train + length I_val + length I_test = length d
          \<and> length I_train = nat a"
proof -
  let ?n = "length d"
  let ?m = "?n - nat a"
  define p where "p = fst (permutation np (seed_rng np 123) ?n)"
  define p2 where "p2 = fst (permutation np (seed_rng np 123) ?m)"
  note ret = split_data_returns [OF ok d r a q b p_def p2_def, of g]
  define irem where "irem = take ?m p"
  define I_train where "I_train = drop ?m p"
  define I_val where "I_val = map ((!) irem) (drop (nat b) p2)"
  define I_test where "I_test = map ((!) irem) (take (nat b) p2)"
  have pp: "distinct p" "set p = {0..<?n}" using numpy_ok_perm [OF ok] p_def by blast+
  have lp: "length p = ?n" using numpy_ok_length [OF ok] p_def by blast
  have pp2: "distinct p2" "set p2 = {0..<?m}" using numpy_ok_perm [OF ok] p2_def by blast+
  have lp2: "length p2 = ?m" using numpy_ok_length [OF ok] p2_def by blast
  have an: "nat a \<le> ?n" using a(2,3) by linarith
  have bm: "nat b \<le> ?m" using b(2,3) by linarith
  have split_p: "irem @ I_train = p" by (simp add: irem_def I_train_def)
  have lrem: "length irem = ?m" using lp by (simp add: irem_def)
  have dsplit: "distinct (irem @ I_train)" using pp(1) split_p by simp
  have ssplit: "set irem \<union> set I_train = {0..<?n}" using pp(2) split_p by (metis set_append)
  have "map ((!) irem) p2 = I_test @ I_val"
    unfolding I_test_def I_val_def by (metis append_take_drop_id map_append)
  moreover have "distinct (map ((!) irem) p2) \<and> set (map ((!) irem) p2) = set irem"
    using dsplit pp2 lrem by (intro reindex_perm) simp_all
  ultimately have tv: "distinct (I_test @ I_val)" "set I_test \<union> set I_val = set irem"
    by (simp_all add: Un_commute)
  have dist: "distinct (I_train @ I_val @ I_test)"
    using dsplit tv by auto
  have cover: "set I_train \<union> set I_val \<union> set I_test = {0..<?n}"
    using ssplit tv(2) by auto
  have rng: "\<forall>i\<in>set I_train. i < ?n" "\<forall>i\<in>set I_val. i < ?n" "\<forall>i\<in>set I_test. i < ?n"
    using cover by auto
  have lens: "length I_train = nat a" "length I_val = ?m - nat b" "length I_test = nat b"
    using lp lp2 an bm by (simp_all add: I_train_def I_val_def I_test_def)
  have total: "length I_train + length I_val + length I_test = ?n"
    using lens an bm by linarith
  have res: "split_data np self test_size val_size g =
              (Inr (map (\<lambda>i. (feats (d ! i), is_red (d ! i))) I_train,
                    map (\<lambda>i. (feats (d ! i), is_red (d ! i))) I_val,
                    map (\<lambda>i. (feats (d ! i), is_red (d ! i))) I_test,
                    map (\<lambda>i. quality (d ! i)) I_train,
                    map (\<lambda>i. quality (d ! i)) I_val,
                    map (\<lambda>i. quality (d ! i)) I_test), g)"
    unfolding ret
    using map_nth_map [OF rng(1), of "\<lambda>r. (feats r, is_red r)"] map_nth_map [OF rng(1), of quality]
      map_nth_map [OF rng(2), of "\<lambda>r. (feats r, is_red r)"] map_nth_map [OF rng(2), of quality]
      map_nth_map [OF rng(3), of "\<lambda>r. (feats r, is_red r)"] map_nth_map [OF rng(3), of quality]
    unfolding I_train_def I_val_def I_test_def irem_def by simp
  show ?thesis
    apply (rule exI [of _ I_train], rule exI [of _ I_val], rule exI [of _ I_test])
    by (intro conjI res dist cover total lens(1))
qed

theorem split_data_partition_witness:
  "\<exists>I_train I_val I_test.
      split_data rev_numpy example_processor (fl (1 / 10)) (fl (3 / 10)) 0 =
        (Inr (map (\<lambda>i. (feats (the (data example_processor) ! i),
                         is_red (the (data example_processor) ! i))) I_train,
              map (\<lambda>i. (feats (the (data example_processor) ! i),
                         is_red (the (data example_processor) ! i))) I_val,
              map (\<lambda>i. (feats (the (data example_processor) ! i),
                         is_red (the (data example_processor) ! i))) I_test,
              map (\<lambda>i. quality (the (data example_processor) ! i)) I_train,
              map (\<lambda>i. quality (the (data example_processor) ! i)) I_val,
              map (\<lambda>i. quality (the (data example_processor) ! i)) I_test), 0)
    \<and> distinct (I_train @ I_val @ I_test)
    \<and> set I_train \<union> set I_val \<union> set I_test = {0..<length (the (data example_processor))}
    \<and> length I_train + length I_val + length I_test = length (the (data example_processor))
    \<and> length I_train = nat 6"
proof -
  note f = example_fractions
  note a = example_train_rows
  have b: "(3::int) = \<lceil>fmul (fdiv (fl (3 / 10)) (fadd (fl (1 / 10)) (fl (3 / 10))))
              (float_of_nat (length (the (data example_processor)) - nat 6))\<rceil>"
    "3 < int (length (the (data example_processor)) - nat 6)"
    using example_test_rows unfolding a(3) [symmetric] by simp_all
  have pos: "(0::int) < 6" "(0::int) < 3" by simp_all
  show ?thesis
    by (rule split_data_partition [OF numpy_ok_rev example_processor_data refl f(1,2)
          a(1) pos(1) a(2) refl f(3,4) b(1) pos(2) b(2)])
qed

text \<open>
  Claim C3 as stated fails on two rows with ratios 0.5 / 0.25 / 0.25: the first split keeps
  one row for training, and the second split refuses the single remaining row because its
  own train part would be empty.
\<close>

theorem split_data_two_rows_raises:
  "split_data rev_numpy
     \<lparr>data = Some [\<lparr>feats = (), is_red = 1, quality = 1\<rparr>, \<lparr>feats = (), is_red = 0, quality = 0\<rparr>]\<rparr>
     (1 / 4) (1 / 4) 0 = (Inl ValueError, 0)"
  by code_simp

text \<open>
  Claim C4. For float ratios, \<open>split_data\<close> raises whenever \<open>test_size + val_size \<ge> 1\<close>: the
  train fraction \<^verbatim>\<open>1-test_size-val_size\<close>, computed in floats, is then not positive and the
  first \<open>train_test_split\<close> refuses it with \<open>ValueError\<close> (on a processor without data the
  attribute access fails before that).
\<close>

theorem split_data_fails_without_train_fraction:
  assumes v: "is_double val_size" and s: "test_size + val_size \<ge> 1"
  shows "fst (split_data np self test_size val_size g)
           = Inl (if data self = None then AttributeError else ValueError)"
proof -
  have "1 - test_size \<le> val_size" using s by simp
  moreover have "fl val_size = val_size" using v by (simp add: is_double_def)
  ultimately have "fl (1 - test_size) \<le> val_size" by (rule fl_le_double)
  then have "fl (1 - test_size) - val_size \<le> 0" by simp
  then have "fsub (fsub 1 test_size) val_size \<le> 0"
    unfolding fsub_def by (rule fl_nonpos)
  then show ?thesis
    by (auto simp: split_data_def train_test_split_def validate_shuffle_split_def
        split: option.splits)
qed

theorem split_data_fails_without_train_fraction_witness:
  "fst (split_data rev_numpy example_processor (1 / 2) (1 / 2) 0) = Inl ValueError"
proof -
  have v: "is_double (1 / 2)" by code_simp
  have h: "(1 / 2 :: rat) + 1 / 2 \<ge> 1" by simp
  have d: "data example_processor \<noteq> None" by code_simp
  from split_data_fails_without_train_fraction [OF v h, of rev_numpy example_processor 0] d
  show ?thesis by simp
qed

text \<open>
  Claim C5. The partition does not depend on the process-wide generator and the call leaves
  that generator as it found it (both splits seed a generator of their own with 123), so
  two calls on the same data and ratios, one after the other or in different processes,
  return the same partition.
\<close>

theorem split_data_deterministic:
  "fst (split_data np self test_size val_size g) = fst (split_data np self test_size val_size g')
   \<and> snd (split_data np self test_size val_size g) = g"
  using split_data_RSInt [of np self test_size val_size g g']
    split_data_RSInt [of np self test_size val_size g' g']
  by (metis fst_conv snd_conv)

text \<open>
  Claim C9. Under the same conditions as for the partition, with \<open>n_rem\<close> the rows left
  after the train part, \<open>split_data\<close> returns a test part of
  \<open>ceil (val_size / (test_size + val_size) * n_rem)\<close> rows, the fraction and the product
  computed in floats, and a validation part of the remaining \<open>n_rem\<close> minus that many rows:
  the share of \<open>val_size\<close> goes to the test part and the complement to the validation part.
\<close>

theorem split_data_val_test_sizes:
  assumes ok: "numpy_ok np"
    and d: "data self = Some d"
    and r: "r = fsub (fsub 1 test_size) val_size" "0 < r" "r < 1"
    and a: "a = \<lfloor>fmul r (float_of_nat (length d))\<rfloor>" "0 < a" "a < int (length d)"
    and n_rem: "n_rem = length d - nat a"
    and q: "q = fdiv val_size (fadd test_size val_size)" "0 < q" "q < 1"
    and b: "b = \<lceil>fmul q (float_of_nat n_rem)\<rceil>" "0 < b" "b < int n_rem"
  shows "\<exists>X_train X_val X_test y_train y_val y_test.
            split_data np self test_size val_size g
              = (Inr (X_train, X_val, X_test, y_train, y_val, y_test), g)
          \<and> length X_test = nat b
          \<and> length X_val = n_rem - nat b
          \<and> length y_test = length X_test
          \<and> length y_val = length X_val"
proof -
  let ?n = "length d"
  define p where "p = fst (permutation np (seed_rng np 123) ?n)"
  define p2 where "p2 = fst (permutation np (seed_rng np 123) (?n - nat a))"
  note ret = split_data_returns [OF ok d r a q b [unfolded n_rem] p_def p2_def, of g]
  have lp2: "length p2 = n_rem" using numpy_ok_length [OF ok] p2_def n_rem by blast
  have bm: "nat b \<le> n_rem" using b(2,3) by linarith
  show ?thesis
    apply (intro exI conjI)
        apply (rule ret)
    using lp2 bm by simp_all
qed

theorem split_data_val_test_sizes_witness:
  "\<exists>X_train X_val X_test y_train y_val y_test.
      split_data rev_numpy example_processor (fl (1 / 10)) (fl (3 / 10)) 0
        = (Inr (X_train, X_val, X_test, y_train, y_val, y_test), 0)
    \<and> length X_test = nat 3
    \<and> length X_val = 4 - nat 3
    \<and> length y_test = length X_test
    \<and> length y_val = length X_val"
proof -
  note f = example_fractions
  note a = example_train_rows
  have pos: "(0::int) < 6" "(0::int) < 3" "(3::int) < int 4" by simp_all
  show ?thesis
    by (rule split_data_val_test_sizes [OF numpy_ok_rev example_processor_data refl f(1,2)
          a(1) pos(1) a(2) a(3) refl f(3,4) example_test_rows pos(2,3)])
qed

section \<open>Properties of the classifier wrappers\<close>

lemma example_fitted_model_forest:
  "fitted example_fitted_model =
     Some \<lparr>classes = [0, 1], proba = (\<lambda>x c. if (5 / 2 \<le> x) = (c = 1) then 3 / 4 else 1 / 4)\<rparr>"
  by (simp add: example_fitted_model_def train_def example_sklearn_def threshold_fit_def
      WineQualityModel_init_def default_model_def)

text \<open>
  Claim C6 (amended). \<open>WineQualityModel\<close> keeps no record of \<open>train\<close> having been called; what
  decides is the estimator it holds. When that estimator is unfitted, as in an instance
  built around a fresh estimator before any \<open>train\<close>, \<open>evaluate\<close> fails with
  \<open>NotFittedError\<close>, and so does \<open>predict\<close> of the \<open>SklearnModelWrapper\<close> around the same
  estimator (\<open>WineQualityModel\<close> has no \<open>predict\<close> of its own).
\<close>

theorem evaluate_unfitted:
  assumes "fitted (model self) = None"
  shows "evaluate sk self X_test y_test = Inl NotFittedError
       \<and> SklearnModelWrapper_predict (SklearnModelWrapper_init (model self)) X_test
           = Inl NotFittedError"
  using assms
  by (simp add: evaluate_def SklearnModelWrapper_predict_def SklearnModelWrapper_init_def
      predict_proba_def)

theorem evaluate_unfitted_witness:
  "fitted (model (WineQualityModel_init (default_model :: rat RandomForestClassifier))) = None
   \<and> evaluate example_sklearn (WineQualityModel_init default_model) [1, 4] [0, 1]
       = Inl NotFittedError
   \<and> SklearnModelWrapper_predict
         (SklearnModelWrapper_init (model (WineQualityModel_init default_model))) [1, 4 :: rat]
       = Inl NotFittedError"
proof -
  have h: "fitted (model (WineQualityModel_init (default_model :: rat RandomForestClassifier))) = None"
    by (simp add: WineQualityModel_init_def default_model_def)
  from evaluate_unfitted [OF h, of example_sklearn "[1, 4]" "[0, 1]"] h show ?thesis
    by simp
qed

text \<open>
  Claim C6 as stated fails on an instance built around an estimator that is already
  fitted: \<open>train\<close> was never called on this instance, and \<open>evaluate\<close> returns a score.
\<close>

theorem evaluate_without_train_returns:
  "evaluate example_sklearn (WineQualityModel_init example_fitted_model) [1, 4] [0, 1] = Inr 1"
  by code_simp

text \<open>
  Claim C7. For a wrapper around a classifier fitted on the two classes 0 and 1,
  \<open>predict\<close> returns, for every batch, one value per row, in order, each the probability of
  the class 1 for that row.
\<close>

theorem wrapper_predict_positive_class:
  assumes "fitted (wrapped self) = Some f" and "classes f = [0, 1]"
  shows "SklearnModelWrapper_predict self X = Inr (map (\<lambda>x. proba f x 1) X)
       \<and> length (map (\<lambda>x. proba f x 1) X) = length X"
  using assms
  by (simp add: SklearnModelWrapper_predict_def predict_proba_def column_def)

theorem wrapper_predict_positive_class_witness:
  "fitted (wrapped (SklearnModelWrapper_init example_fitted_model))
     = Some (the (fitted example_fitted_model))
   \<and> classes (the (fitted example_fitted_model)) = [0, 1]
   \<and> SklearnModelWrapper_predict (SklearnModelWrapper_init example_fitted_model) [1, 4, 2, 3]
       = Inr [1 / 4, 3 / 4, 1 / 4, 3 / 4]"
proof -
  have h1: "fitted (wrapped (SklearnModelWrapper_init example_fitted_model))
     = Some (the (fitted example_fitted_model))"
    by (simp add: SklearnModelWrapper_init_def example_fitted_model_forest)
  have h2: "classes (the (fitted example_fitted_model)) = [0, 1]"
    by (simp add: example_fitted_model_forest)
  have v: "map (\<lambda>x. proba (the (fitted example_fitted_model)) x 1) [1, 4, 2, 3]
             = [1 / 4, 3 / 4, 1 / 4, 3 / 4]"
    by (simp add: example_fitted_model_forest)
  from wrapper_predict_positive_class [OF h1 h2, of "[1, 4, 2, 3]"] h1 h2 v show ?thesis
    by simp
qed

section \<open>Properties of the tracking workflow\<close>

subsection \<open>Auxiliary facts\<close>

lemma fold_max_ge: "(v::nat) \<in> set vs \<Longrightarrow> v \<le> fold max vs a"
proof -
  assume "v \<in> set vs"
  then have "v \<le> Max (set (a # vs))" by simp
  then show ?thesis by (simp only: Max.set_eq_fold)
qed

lemma sorted_head_least:
  fixes f :: "'a \<Rightarrow> 'k::linorder"
  assumes s: "sorted (map f zs)" and x: "x \<in> set zs"
    and least: "\<forall>y\<in>set zs. y \<noteq> x \<longrightarrow> f x < f y"
  shows "\<exists>rest. zs = x # rest"
proof (cases zs)
  case Nil
  with x show ?thesis by simp
next
  case (Cons z rest)
  have "f z \<le> f x" using s x Cons by auto
  with least Cons have "z = x" by fastforce
  with Cons show ?thesis by simp
qed

lemma search_runs_latest_first:
  assumes x: "x \<in> set (runs w)" "run_name x = Some n"
    and later: "\<forall>r\<in>set (runs w). r \<noteq> x \<longrightarrow> run_name r = Some n \<longrightarrow> start_time r < start_time x"
  shows "iloc0 (search_runs (Some n) None w) = Inr x"
proof -
  let ?found = "filter (\<lambda>r. run_name r = Some n) (runs w)"
  let ?base = "sort_key (\<lambda>r. - int (start_time r)) (sort_key run_id ?found)"
  have "sorted (map (\<lambda>r. - int (start_time r)) ?base)" by simp
  moreover have sb: "set ?base = set ?found" by simp
  moreover have "x \<in> set ?base" using x by simp
  moreover have "\<forall>y\<in>set ?base. y \<noteq> x \<longrightarrow> - int (start_time x) < - int (start_time y)"
    using later by simp
  ultimately obtain rest where "?base = x # rest"
    using sorted_head_least [of "\<lambda>r. - int (start_time r)" ?base x] by blast
  then show ?thesis by (simp add: search_runs_def iloc0_def)
qed

lemma sorted_head_le:
  fixes f :: "'a \<Rightarrow> 'k::linorder"
  assumes "sorted (map f (z # zs))" and "x \<in> set (z # zs)"
  shows "f z \<le> f x"
  using assms by auto

lemma search_best_is_greatest:
  assumes r: "r \<in> set (runs w)" and m: "metric ''auc'' r = Some a'"
  shows "\<exists>b a. best_run w = Inr b \<and> b \<in> set (runs w) \<and> metric ''auc'' b = Some a
           \<and> (\<forall>r'\<in>set (runs w). \<forall>c. metric ''auc'' r' = Some c \<longrightarrow> c \<le> a)"
proof -
  let ?base = "sort_key (\<lambda>r. - int (start_time r)) (sort_key run_id (filter (\<lambda>r. True) (runs w)))"
  let ?has = "filter (\<lambda>r. metric ''auc'' r \<noteq> None) ?base"
  let ?srt = "sort_key (\<lambda>r. - the (metric ''auc'' r)) ?has"
  have sb: "set ?base = set (runs w)" by simp
  have ss: "set ?srt = {r \<in> set (runs w). metric ''auc'' r \<noteq> None}" by auto
  have "r \<in> set ?srt" using r m ss by simp
  then have "?srt \<noteq> []" by (metis empty_iff empty_set)
  then obtain b rest where br: "?srt = b # rest" by (meson neq_Nil_conv)
  have bin: "b \<in> set ?srt" using br by simp
  then have b: "b \<in> set (runs w)" "metric ''auc'' b \<noteq> None" using ss by auto
  then obtain a where a: "metric ''auc'' b = Some a" by auto
  have srt: "sorted (map (\<lambda>r. - the (metric ''auc'' r)) (b # rest))"
    using br [symmetric] by simp
  have gr: "\<forall>r'\<in>set (runs w). \<forall>c. metric ''auc'' r' = Some c \<longrightarrow> c \<le> a"
  proof (intro ballI allI impI)
    fix r' c assume r': "r' \<in> set (runs w)" and c: "metric ''auc'' r' = Some c"
    then have "r' \<in> {r \<in> set (runs w). metric ''auc'' r \<noteq> None}" by simp
    then have "r' \<in> set ?srt" by (simp only: ss)
    then have "r' \<in> set (b # rest)" by (simp only: br)
    from sorted_head_le [OF srt this] a c show "c \<le> a" by simp
  qed
  have "best_run w = Inr b"
    using br by (simp add: best_run_def search_runs_def iloc0_def)
  with b a gr show ?thesis by blast
qed

lemma start_run_nested:
  "\<exists>r w1. start_run None True w = Inr w1 \<and> runs w1 = runs w @ [r]
      \<and> active w1 = length (runs w) # active w \<and> metrics r = []"
  by (simp add: start_run_def)

lemma log_metric_top:
  assumes "active v = length rs # act" and "runs v = rs @ [r]"
  shows "runs (log_metric k a v) = rs @ [r\<lparr>metrics := metrics r @ [(k, a)]\<rparr>]
       \<and> active (log_metric k a v) = active v"
  using assms by (simp add: log_metric_def ensure_active_def update_run_def)

lemma log_artifact_top:
  assumes "active v = length rs # act" and "runs v = rs @ [r]"
  shows "runs (log_artifact k v) = rs @ [r\<lparr>artifacts := artifacts r @ [k]\<rparr>]
       \<and> active (log_artifact k v) = active v"
  using assms by (simp add: log_artifact_def ensure_active_def update_run_def)

lemma end_run_top:
  assumes "active v = length rs # act" and "runs v = rs @ [r]"
  shows "runs (end_run st v) = rs @ [r\<lparr>status := st\<rparr>] \<and> active (end_run st v) = act"
  using assms by (simp add: end_run_def update_run_def)

lemma train_model_appends:
  assumes tm: "train_model xgb sk ds ps w = (res, w')"
  shows "\<exists>r. runs w' = runs w @ [r] \<and> active w' = active w
           \<and> (\<forall>t. res = Inr t \<longrightarrow> metric ''auc'' r = Some (- loss t))"
proof -
  from start_run_nested [of w] obtain r0 w1 where
    s: "start_run None True w = Inr w1"
    and w1: "runs w1 = runs w @ [r0]" "active w1 = length (runs w) # active w"
    and r0: "metrics r0 = []"
    by blast
  show ?thesis
  proof (cases "xgb_train xgb ps (train_X ds) (train_y ds) (val_X ds) (val_y ds)")
    case (Inl e)
    with tm s have "res = Inl e" "w' = end_run FAILED w1"
      by (simp_all add: train_model_def with_run_def)
    with end_run_top [OF w1(2) w1(1), of FAILED] show ?thesis by simp
  next
    case (Inr booster)
    show ?thesis
    proof (cases "roc_auc_score sk (val_y ds) (booster_predict xgb booster (val_X ds))")
      case (Inl e)
      with tm s Inr have "res = Inl e" "w' = end_run FAILED w1"
        by (simp_all add: train_model_def with_run_def)
      with end_run_top [OF w1(2) w1(1), of FAILED] show ?thesis by simp
    next
      case (Inr auc_score)
      let ?w2 = "log_metric ''auc'' auc_score w1"
      let ?w3 = "log_artifact ''model'' ?w2"
      from tm s \<open>xgb_train xgb ps (train_X ds) (train_y ds) (val_X ds) (val_y ds) = Inr booster\<close> Inr
      have res: "res = Inr \<lparr>trial_status = ''ok'', loss = - 1 * auc_score\<rparr>" and w': "w' = end_run FINISHED ?w3"
        by (simp_all add: train_model_def with_run_def Let_def)
      note m = log_metric_top [OF w1(2) w1(1), of "''auc''" auc_score]
      have a2: "active ?w2 = length (runs w) # active w" using m w1(2) by simp
      note a = log_artifact_top [OF a2 conjunct1 [OF m], of "''model''"]
      have a3: "active ?w3 = length (runs w) # active w" using a a2 by simp
      note e = end_run_top [OF a3 conjunct1 [OF a], of FINISHED]
      show ?thesis
        using e res r0 unfolding w' by (simp add: metric_def)
    qed
  qed
qed

lemma fmin_trials_keeps_logged:
  assumes "fmin_trials (train_model xgb sk ds) suggest k trials w = (trials', w')"
    and "trials_logged w trials"
  shows "trials_logged w' trials'"
  using assms
proof (induction k arbitrary: trials w)
  case 0
  then show ?case by simp
next
  case (Suc k)
  obtain res w1 where step: "train_model xgb sk ds (suggest trials) w = (res, w1)"
    by (cases "train_model xgb sk ds (suggest trials) w") auto
  from train_model_appends [OF step] obtain r where
    r: "runs w1 = runs w @ [r]" "\<forall>t. res = Inr t \<longrightarrow> metric ''auc'' r = Some (- loss t)"
    by blast
  have "trials_logged w1 (trials @ [(suggest trials, res)])"
    using Suc.prems(2) r unfolding trials_logged_def by auto
  moreover have "fmin_trials (train_model xgb sk ds) suggest k (trials @ [(suggest trials, res)]) w1 = (trials', w')"
    using Suc.prems(1) step by (simp add: Let_def)
  ultimately show ?case by (rule Suc.IH [rotated])
qed

lemma end_run_metrics: "map metrics (runs (end_run st w)) = map metrics (runs w)"
  by (auto simp: end_run_def update_run_def nth_list_update split: list.splits intro!: nth_equalityI)

lemma sweep_trials_logged:
  assumes "sweep xgb sk ds suggest max_evals w = (res, trials, w')"
  shows "trials_logged w' trials"
proof (cases "start_run (Some ''xgboost_models'') False w")
  case (Inl e)
  with assms show ?thesis by (auto simp: sweep_def trials_logged_def)
next
  case (Inr w1)
  obtain trials1 w2 where f: "fmin_trials (train_model xgb sk ds) suggest max_evals [] w1 = (trials1, w2)"
    by (cases "fmin_trials (train_model xgb sk ds) suggest max_evals [] w1") auto
  have l2: "trials_logged w2 trials1"
    by (rule fmin_trials_keeps_logged [OF f]) (simp add: trials_logged_def)
  from assms Inr f have "trials = trials1 \<and> (\<exists>st. w' = end_run st w2)"
    by (auto simp: sweep_def fmin_def split: option.splits prod.splits)
  then obtain st where t: "trials = trials1" and w': "w' = end_run st w2" by blast
  have "map (metric ''auc'') (runs w') = map (metric ''auc'') (runs w2)"
  proof -
    have "map (metric ''auc'') (runs w') = map (\<lambda>ms. map_of (rev ms) ''auc'') (map metrics (runs w'))"
      by (simp add: metric_def comp_def)
    also have "\<dots> = map (\<lambda>ms. map_of (rev ms) ''auc'') (map metrics (runs w2))"
      unfolding w' end_run_metrics ..
    also have "\<dots> = map (metric ''auc'') (runs w2)" by (simp add: metric_def comp_def)
    finally show ?thesis .
  qed
  with l2 t show ?thesis unfolding trials_logged_def by simp
qed

subsection \<open>\<open>run_experiment\<close>\<close>

text \<open>
  Claim C8 (amended). \<open>run_experiment\<close> returns the identifier of the latest started run of
  the name \<open>untuned_random_forest\<close> in the store. Called with no run active, on a store in
  which every run of that name started before the clock of the call, it returns the
  identifier of the run it has created: the run that carries the parameter
  \<open>n_estimators\<close>, the metric \<open>auc\<close> and the artifact \<open>random_forest_model\<close>.
\<close>

theorem run_experiment_returns_created_run:
  assumes act: "active w = []"
    and earlier: "\<forall>r\<in>set (runs w). run_name r = Some ''untuned_random_forest'' \<longrightarrow> start_time r < clock w"
    and ret: "run_experiment sk self m X_train X_test y_train y_test w = (Inr i, m', w')"
  shows "i = uuid w
       \<and> (\<exists>auc_score. evaluate sk m' X_test y_test = Inr auc_score
            \<and> runs w' = runs w @
                 [\<lparr>run_id = uuid w, run_name = Some ''untuned_random_forest'', parent_run = None,
                   start_time = clock w, status = FINISHED,
                   params = [(''n_estimators'', n_estimators (model m))],
                   metrics = [(''auc'', auc_score)],
                   artifacts = [''random_forest_model'']\<rparr>])"
proof -
  let ?n = "length (runs w)"
  let ?new = "\<lparr>run_id = uuid w, run_name = Some ''untuned_random_forest'', parent_run = None,
               start_time = clock w, status = RUNNING, params = [], metrics = [], artifacts = []\<rparr>"
  let ?w1 = "w\<lparr>runs := runs w @ [?new], active := [?n], uuid := Suc (uuid w)\<rparr>"
  have s: "start_run (Some ''untuned_random_forest'') False w = Inr ?w1"
    using act by (simp add: start_run_def)
  from ret s obtain w2 where
    body: "run_experiment_body sk m X_train X_test y_train y_test ?w1 = (Inr i, m', w2)"
    and w': "w' = end_run FINISHED w2"
    by (auto simp: run_experiment_def split: sum.splits prod.splits)
  from body obtain m1 auc_score where
    tr: "train sk m X_train y_train = Inr m1"
    and ev: "evaluate sk m1 X_test y_test = Inr auc_score"
    by (auto simp: run_experiment_body_def split: sum.splits)
  have ne: "n_estimators (model m1) = n_estimators (model m)"
    using tr by (auto simp: train_def split: sum.splits)
  let ?r1 = "?new\<lparr>params := [(''n_estimators'', n_estimators (model m))]\<rparr>"
  let ?wa = "?w1\<lparr>runs := runs w @ [?r1]\<rparr>"
  have lp: "log_param ''n_estimators'' (n_estimators (model m1)) ?w1 = Inr ?wa"
    by (simp add: log_param_def ensure_active_def update_run_def ne)
  let ?r2 = "?r1\<lparr>metrics := [(''auc'', auc_score)]\<rparr>"
  let ?wb = "?w1\<lparr>runs := runs w @ [?r2]\<rparr>"
  have lm: "log_metric ''auc'' auc_score ?wa = ?wb"
    by (simp add: log_metric_def ensure_active_def update_run_def)
  let ?r3 = "?r2\<lparr>artifacts := [''random_forest_model'']\<rparr>"
  let ?wc = "?w1\<lparr>runs := runs w @ [?r3]\<rparr>"
  have la: "log_artifact ''random_forest_model'' ?wb = ?wc"
    by (simp add: log_artifact_def ensure_active_def update_run_def)
  from body tr ev lp lm la have
    lmod: "log_model m1 X_train ?wb = Inr ?wc"
    by (auto simp: run_experiment_body_def log_model_def Let_def split: sum.splits)
  have first: "iloc0 (search_runs (Some ''untuned_random_forest'') None ?wc) = Inr ?r3"
    by (rule search_runs_latest_first) (use earlier in auto)
  from body tr ev lp lm lmod first have i: "i = uuid w" and m': "m' = m1" and w2: "w2 = ?wc"
    by (auto simp: run_experiment_body_def Let_def)
  have fin: "runs (end_run FINISHED ?wc) = runs w @ [?r3\<lparr>status := FINISHED\<rparr>]"
    by (simp add: end_run_def update_run_def)
  show ?thesis
    using i m' ev w' w2 fin by simp
qed

theorem run_experiment_returns_created_run_witness:
  "fst (run_experiment example_sklearn MLflowExperiment_init (WineQualityModel_init default_model)
          [1, 2, 3, 4] [1, 4] [0, 0, 1, 1] [0, 1] earlier_store) = Inr 8
   \<and> 8 = uuid earlier_store"
proof -
  let ?r = "run_experiment example_sklearn MLflowExperiment_init (WineQualityModel_init default_model)
          [1, 2, 3, 4] [1, 4] [0, 0, 1, 1] [0, 1] earlier_store"
  have a: "active earlier_store = []" by code_simp
  have e: "\<forall>r\<in>set (runs earlier_store).
             run_name r = Some ''untuned_random_forest'' \<longrightarrow> start_time r < clock earlier_store"
    by code_simp
  have f: "fst ?r = Inr 8" by code_simp
  then have ret: "?r = (Inr 8, fst (snd ?r), snd (snd ?r))" by (metis prod.collapse)
  from run_experiment_returns_created_run [OF a e ret] f show ?thesis by simp
qed

text \<open>
  Claim C8 as stated fails on a store that holds a run of the same name with a later start
  time: the call creates the run 8 and returns the identifier 7 of the other run.
\<close>

theorem run_experiment_returns_other_run:
  "fst (run_experiment example_sklearn MLflowExperiment_init (WineQualityModel_init default_model)
          [1, 2, 3, 4] [1, 4] [0, 0, 1, 1] [0, 1] later_store) = Inr 7
   \<and> map run_id (runs (snd (snd (run_experiment example_sklearn MLflowExperiment_init
          (WineQualityModel_init default_model) [1, 2, 3, 4] [1, 4] [0, 0, 1, 1] [0, 1] later_store))))
       = [7, 8]"
  by code_simp

subsection \<open>\<open>register_model\<close>\<close>

text \<open>
  Claim C10. When the run exists, \<open>register_model\<close> returns the version it has created (a
  new version of the model name, bound to the artifact \<open>random_forest_model\<close> of the run,
  numbered above every earlier version of the name, its stage left at \<open>None\<close>), and the
  alias \<open>production\<close> of the model name points to that version in the state in which the
  wait of 15 seconds starts, hence also when the call returns.
\<close>

theorem register_model_sets_production_alias:
  assumes "rid \<in> set (map run_id (runs w))"
  shows "\<exists>mv w2. register_model self rid w = (Inr mv, time_sleep 15 w2)
           \<and> versions w2 = versions w @ [mv]
           \<and> registered_name mv = model_name self
           \<and> source mv = (rid, ''random_forest_model'')
           \<and> current_stage mv = ''None''
           \<and> (\<forall>m\<in>set (versions w). registered_name m = model_name self \<longrightarrow> version m < version mv)
           \<and> aliases w2 (model_name self, ''production'') = Some (version mv)
           \<and> aliases (snd (register_model self rid w)) (model_name self, ''production'') = Some (version mv)"
proof -
  let ?v = "Suc (fold max (map version (filter (\<lambda>m. registered_name m = model_name self) (versions w))) 0)"
  let ?mv = "\<lparr>registered_name = model_name self, version = ?v,
              source = (rid, ''random_forest_model''), current_stage = ''None''\<rparr>"
  let ?w1 = "w\<lparr>versions := versions w @ [?mv]\<rparr>"
  let ?w2 = "?w1\<lparr>aliases := (aliases ?w1)((model_name self, ''production'') \<mapsto> ?v)\<rparr>"
  have r: "mlflow_register_model (rid, ''random_forest_model'') (model_name self) w = Inr (?mv, ?w1)"
    using assms by (simp add: mlflow_register_model_def Let_def)
  have a: "set_registered_model_alias (model_name self) ''production'' ?v ?w1 = Inr ?w2"
    by (simp add: set_registered_model_alias_def list_ex_iff)
  have 1: "register_model self rid w = (Inr ?mv, time_sleep 15 ?w2)"
    by (simp add: register_model_def r a)
  have 2: "\<forall>m\<in>set (versions w). registered_name m = model_name self \<longrightarrow> version m < version ?mv"
  proof (intro ballI impI)
    fix m assume "m \<in> set (versions w)" "registered_name m = model_name self"
    then have "version m \<in> set (map version (filter (\<lambda>m. registered_name m = model_name self) (versions w)))"
      by auto
    from fold_max_ge [OF this, of 0] show "version m < version ?mv" by simp
  qed
  show ?thesis
    apply (rule exI [of _ ?mv], rule exI [of _ ?w2])
    using 1 2 by (simp add: time_sleep_def)
qed

theorem register_model_sets_production_alias_witness:
  "aliases (snd (register_model MLflowExperiment_init 0 baseline_store)) (''wine_quality'', ''production'') = Some 1"
proof -
  have h: "0 \<in> set (map run_id (runs baseline_store))" by code_simp
  have v: "map_sum id version (fst (register_model MLflowExperiment_init 0 baseline_store)) = Inr 1"
    by code_simp
  have n: "model_name MLflowExperiment_init = ''wine_quality''" by (simp add: MLflowExperiment_init_def)
  from register_model_sets_production_alias [OF h, of MLflowExperiment_init] obtain mv w2 where
    1: "register_model MLflowExperiment_init 0 baseline_store = (Inr mv, time_sleep 15 w2)"
    and 2: "aliases (snd (register_model MLflowExperiment_init 0 baseline_store))
              (model_name MLflowExperiment_init, ''production'') = Some (version mv)"
    by blast
  from v 1 have "version mv = 1" by simp
  with 2 n show ?thesis by simp
qed

subsection \<open>The best run\<close>

text \<open>
  Claim C1 (amended). After the sweep, \<open>best_run\<close> is a run of greatest logged \<open>auc\<close> among
  all runs of the experiment that logged one, the trials of the sweep and any other run;
  as soon as one trial succeeded it is defined, and its negated \<open>auc\<close> is at most the loss of
  every trial that succeeded.
\<close>

theorem best_run_greatest_auc:
  assumes sw: "sweep xgb sk ds suggest max_evals w = (res, trials, w')"
    and t: "(ps, Inr t) \<in> set trials"
  shows "\<exists>b a. best_run w' = Inr b \<and> b \<in> set (runs w') \<and> metric ''auc'' b = Some a
           \<and> (\<forall>r\<in>set (runs w'). \<forall>c. metric ''auc'' r = Some c \<longrightarrow> c \<le> a)
           \<and> - a \<le> loss t"
proof -
  from sweep_trials_logged [OF sw] t have "Some (- loss t) \<in> set (map (metric ''auc'') (runs w'))"
    unfolding trials_logged_def by fastforce
  then obtain r where r: "r \<in> set (runs w')" "metric ''auc'' r = Some (- loss t)" by auto
  from search_best_is_greatest [OF r] obtain b a where
    b: "best_run w' = Inr b" "b \<in> set (runs w')" "metric ''auc'' b = Some a"
    and g: "\<forall>r\<in>set (runs w'). \<forall>c. metric ''auc'' r = Some c \<longrightarrow> c \<le> a"
    by blast
  from g r have "- loss t \<le> a" by blast
  then have "- a \<le> loss t" by simp
  with b g show ?thesis by blast
qed

theorem best_run_greatest_auc_witness:
  "\<exists>b a. best_run swept_store = Inr b \<and> metric ''auc'' b = Some a \<and> - a \<le> - (3 / 4)"
proof -
  let ?s = "sweep threshold_xgboost example_sklearn example_partitions count_suggest 2 baseline_store"
  have sw: "?s = (fst ?s, fst (snd ?s), swept_store)"
    by (simp add: swept_store_def)
  have t: "(2, Inr \<lparr>trial_status = ''ok'', loss = - (3 / 4)\<rparr>) \<in> set (fst (snd ?s))"
    by code_simp
  from best_run_greatest_auc [OF sw t] show ?thesis by auto
qed

text \<open>
  Claim C1 as stated fails on the store of the baseline experiment: the two trials of the
  sweep are the runs 2 and 3, children of the run 1, and the run selected as best is the
  run 0 of the baseline experiment, which is no trial of the sweep.
\<close>

theorem best_run_not_a_trial:
  "map_sum id run_id (best_run swept_store) = Inr 0
   \<and> map run_id (runs swept_store) = [0, 1, 2, 3]
   \<and> map parent_run (runs swept_store) = [None, None, Some 1, Some 1]
   \<and> map run_name (runs swept_store)
       = [Some ''untuned_random_forest'', Some ''xgboost_models'', None, None]"
  by code_simp

end
